theory Spec2Isabelle
  imports Main "HOL-Library.List_Lexorder" "HOL-Library.Product_Lexorder"
    "HOL-Library.Option_ord" "HOL-Library.AList"
begin

section \<open>Python strings and the library functions the scripts call\<close>

text \<open>
  A Python \<open>str\<close> is a sequence of Unicode code points: a list of naturals. Comparison of
  two \<open>str\<close> values is lexicographic on code points, which is the order of
  \<open>HOL-Library.List_Lexorder\<close>; tuples compare lexicographically
  (\<open>HOL-Library.Product_Lexorder\<close>).
\<close>

type_synonym ustr = "nat list"

definition ascii :: "string \<Rightarrow> ustr" where
  "ascii s = map of_char s"

text \<open>
  \<open>str.isspace\<close> on one code point; the pattern \<open>\s\<close> of \<open>re\<close> on a \<open>str\<close> and
  \<open>str.strip()\<close> both use it.
\<close>

definition is_space :: "nat \<Rightarrow> bool" where
  "is_space c \<longleftrightarrow>
     (9 \<le> c \<and> c \<le> 13) \<or> (28 \<le> c \<and> c \<le> 32) \<or> c = 133 \<or> c = 160 \<or> c = 5760 \<or>
     (8192 \<le> c \<and> c \<le> 8202) \<or> c = 8232 \<or> c = 8233 \<or> c = 8239 \<or> c = 8287 \<or> c = 12288"

text \<open>\<open>s.strip()\<close>\<close>

definition strip :: "ustr \<Rightarrow> ustr" where
  "strip s = rev (dropWhile is_space (rev (dropWhile is_space s)))"

text \<open>\<open>WHITESPACE_RE.sub(" ", text)\<close>: every maximal run of white space becomes one space.\<close>

function sub_whitespace :: "ustr \<Rightarrow> ustr" where
  "sub_whitespace [] = []"
| "sub_whitespace (c # cs) =
     (if is_space c then 32 # sub_whitespace (dropWhile is_space cs)
      else c # sub_whitespace cs)"
  by pat_completeness auto
termination
  by (relation "measure length") (auto simp: le_imp_less_Suc length_dropWhile_le)

text \<open>\<open>_common.clean_whitespace\<close>\<close>

definition clean_whitespace :: "ustr \<Rightarrow> ustr" where
  "clean_whitespace text = strip (sub_whitespace text)"

text \<open>
  The functions of the Python runtime whose tables are not part of the repository:
  \<open>str.lower\<close>, \<open>unicodedata.normalize("NFKD", _)\<close> and \<open>int\<close> on a \<open>str\<close>
  (\<open>None\<close> where \<open>int\<close> raises \<open>ValueError\<close>). The scripts are modelled over any such
  three functions.
\<close>

record pylib =
  str_lower :: "ustr \<Rightarrow> ustr"
  nfkd :: "ustr \<Rightarrow> ustr"
  int_str :: "ustr \<Rightarrow> int option"

text \<open>
  A concrete runtime for evaluating the scripts on inputs below U+0100. \<open>lower_latin1\<close>
  and \<open>nfkd_latin1\<close> are \<open>str.lower\<close> and the NFKD decomposition (UnicodeData.txt,
  decomposition mapping) on the code points of Basic Latin and Latin-1 Supplement; code
  points from U+0100 on are outside this table and left as they are.
\<close>

definition lower_latin1 :: "nat \<Rightarrow> nat" where
  "lower_latin1 c =
     (if 65 \<le> c \<and> c \<le> 90 then c + 32
      else if 192 \<le> c \<and> c \<le> 222 \<and> c \<noteq> 215 then c + 32
      else c)"

definition nfkd_table :: "(nat \<times> nat list) list" where
  "nfkd_table =
    [(160, [32]), (168, [32, 776]), (170, [97]), (175, [32, 772]), (178, [50]), (179, [51]),
     (180, [32, 769]), (181, [956]), (184, [32, 807]), (185, [49]), (186, [111]),
     (188, [49, 8260, 52]), (189, [49, 8260, 50]), (190, [51, 8260, 52]),
     (192, [65, 768]), (193, [65, 769]), (194, [65, 770]), (195, [65, 771]),
     (196, [65, 776]), (197, [65, 778]), (199, [67, 807]),
     (200, [69, 768]), (201, [69, 769]), (202, [69, 770]), (203, [69, 776]),
     (204, [73, 768]), (205, [73, 769]), (206, [73, 770]), (207, [73, 776]),
     (209, [78, 771]),
     (210, [79, 768]), (211, [79, 769]), (212, [79, 770]), (213, [79, 771]), (214, [79, 776]),
     (217, [85, 768]), (218, [85, 769]), (219, [85, 770]), (220, [85, 776]), (221, [89, 769]),
     (224, [97, 768]), (225, [97, 769]), (226, [97, 770]), (227, [97, 771]),
     (228, [97, 776]), (229, [97, 778]), (231, [99, 807]),
     (232, [101, 768]), (233, [101, 769]), (234, [101, 770]), (235, [101, 776]),
     (236, [105, 768]), (237, [105, 769]), (238, [105, 770]), (239, [105, 776]),
     (241, [110, 771]),
     (242, [111, 768]), (243, [111, 769]), (244, [111, 770]), (245, [111, 771]),
     (246, [111, 776]),
     (249, [117, 768]), (250, [117, 769]), (251, [117, 770]), (252, [117, 776]),
     (253, [121, 769]), (255, [121, 776])]"

definition nfkd_latin1 :: "nat \<Rightarrow> nat list" where
  "nfkd_latin1 c = (case map_of nfkd_table c of None \<Rightarrow> [c] | Some d \<Rightarrow> d)"

text \<open>
  \<open>int_ascii\<close> is \<open>int(s)\<close> on the plain decimal literals: ASCII blanks around
  (U+0009 to U+000D, U+0020), an optional sign, ASCII digits with single underscores
  between digits. Every other string is rejected here; CPython also accepts the other
  Unicode spaces around and the decimal digits of other scripts.
\<close>

definition int_blank :: "nat \<Rightarrow> bool" where
  "int_blank c \<longleftrightarrow> (9 \<le> c \<and> c \<le> 13) \<or> c = 32"

fun int_digits :: "bool \<Rightarrow> nat \<Rightarrow> ustr \<Rightarrow> nat option" where
  "int_digits prev acc [] = (if prev then Some acc else None)"
| "int_digits prev acc (c # cs) =
     (if 48 \<le> c \<and> c \<le> 57 then int_digits True (10 * acc + (c - 48)) cs
      else if c = 95 \<and> prev then int_digits False acc cs
      else None)"

definition int_ascii :: "ustr \<Rightarrow> int option" where
  "int_ascii s =
     (case rev (dropWhile int_blank (rev (dropWhile int_blank s))) of
        [] \<Rightarrow> None
      | c # cs \<Rightarrow>
          if c = 45 then map_option (\<lambda>n. - int n) (int_digits False 0 cs)
          else if c = 43 then map_option int (int_digits False 0 cs)
          else map_option int (int_digits False 0 (c # cs)))"

definition cpython_latin1 :: pylib where
  "cpython_latin1 =
     \<lparr> str_lower = map lower_latin1,
       nfkd = (\<lambda>s. concat (map nfkd_latin1 s)),
       int_str = int_ascii \<rparr>"

text \<open>\<open>str(n)\<close> for an \<open>int\<close>.\<close>

fun str_nat :: "nat \<Rightarrow> ustr" where
  "str_nat n = (if n < 10 then [48 + n] else str_nat (n div 10) @ [48 + n mod 10])"

definition str_int :: "int \<Rightarrow> ustr" where
  "str_int i = (if i < 0 then 45 # str_nat (nat (- i)) else str_nat (nat i))"

section \<open>normalize_dictionary.py\<close>

text \<open>
  A cell of a row read by \<open>csv.DictReader\<close>: a \<open>str\<close>, or \<open>None\<close> where the line of the
  file is shorter than the header (\<open>restval\<close> is \<open>None\<close>).
\<close>

type_synonym cell = "ustr option"

text \<open>
  \<open>source_file\<close> is stored as \<open>row.get("source_file", "")\<close> returns it, so it can be
  \<open>None\<close>; the other text fields are results of \<open>clean_whitespace\<close>.
\<close>

record NormalizedEntry =
  source_file :: cell
  entry_index :: int
  word :: ustr
  normalized_word :: ustr
  part_of_speech :: ustr
  definition_text :: ustr
  etymology :: ustr
  first_letter :: ustr
  number_of_letters :: nat

definition normalize_word :: "pylib \<Rightarrow> ustr \<Rightarrow> ustr" where
  "normalize_word py raw_word =
     (let lowered = str_lower py (clean_whitespace raw_word);
          decomposed = nfkd py lowered;
          ascii_text = filter (\<lambda>c. c < 128) decomposed;
          letters_only = filter (\<lambda>ch. 97 \<le> ch \<and> ch \<le> 122) ascii_text
      in letters_only)"

text \<open>
  A row of \<open>csv.DictReader\<close>: a column of the header is a key of the row, with a \<open>str\<close>
  or \<open>None\<close> as its value; any other name is not a key. \<open>row k = None\<close> says that \<open>k\<close>
  is not a key, \<open>row k = Some None\<close> that its value is \<open>None\<close>. (A line longer than the
  header puts its extra fields under the key \<open>None\<close>, which no script reads.)
\<close>

type_synonym row = "string \<Rightarrow> cell option"

text \<open>\<open>row.get(key, "")\<close>: the default is used for a missing key only.\<close>

definition get_or_empty :: "row \<Rightarrow> string \<Rightarrow> cell" where
  "get_or_empty r key = (case r key of None \<Rightarrow> Some [] | Some v \<Rightarrow> v)"

text \<open>\<open>row.get(key) or ""\<close>: a missing key and a \<open>None\<close> value both give \<open>""\<close>.\<close>

definition get_or_falsy_empty :: "row \<Rightarrow> string \<Rightarrow> ustr" where
  "get_or_falsy_empty r key = (case r key of Some (Some v) \<Rightarrow> v | _ \<Rightarrow> [])"

datatype error = ValueError | TypeError

text \<open>
  \<open>int(row.get(key) or "0")\<close>: a missing key, a \<open>None\<close> value and an empty string are
  replaced by \<open>"0"\<close> before \<open>int\<close> is called; \<open>int\<close> raises \<open>ValueError\<close> on what it
  cannot parse.
\<close>

definition int_or_zero :: "pylib \<Rightarrow> row \<Rightarrow> string \<Rightarrow> error + int" where
  "int_or_zero py r key =
     (let s = (case r key of
                 Some (Some v) \<Rightarrow> if v = [] then ascii ''0'' else v
               | _ \<Rightarrow> ascii ''0'')
      in case int_str py s of None \<Rightarrow> Inl ValueError | Some n \<Rightarrow> Inr n)"

text \<open>The state of the first loop of \<open>main\<close>: the list built so far and the two counters.\<close>

record norm_state =
  normalized_entries :: "NormalizedEntry list"
  dropped_empty :: nat
  dropped_nonalpha :: nat

definition norm_init :: norm_state where
  "norm_init = \<lparr> normalized_entries = [], dropped_empty = 0, dropped_nonalpha = 0 \<rparr>"

text \<open>
  One iteration of \<open>for row in raw_rows\<close> (lines 97 to 128). \<open>clean_whitespace\<close> calls
  \<open>WHITESPACE_RE.sub\<close>, which raises \<open>TypeError\<close> on \<open>None\<close>: so does
  \<open>normalize_word(word)\<close> when the word cell is \<open>None\<close>, and so does the construction of
  the entry when the \<open>part_of_speech\<close> or the \<open>definition\<close> cell is.
\<close>

definition normalize_row :: "pylib \<Rightarrow> norm_state \<Rightarrow> row \<Rightarrow> error + norm_state" where
  "normalize_row py st r =
     (let source_file' = get_or_empty r ''source_file'' in
      case int_or_zero py r ''entry_index'' of
        Inl e \<Rightarrow> Inl e
      | Inr entry_index' \<Rightarrow>
          let word' = get_or_empty r ''word'';
              part_of_speech' = get_or_empty r ''part_of_speech'';
              definition' = get_or_empty r ''definition''
          in case word' of
               None \<Rightarrow> Inl TypeError
             | Some w \<Rightarrow>
                 let normalized = normalize_word py w
                 in case normalized of
                      [] \<Rightarrow> Inr (st\<lparr>dropped_empty := dropped_empty st + 1\<rparr>)
                    | c # _ \<Rightarrow>
                        if list_ex (\<lambda>ch. ch < 97 \<or> ch > 122) normalized
                        then Inr (st\<lparr>dropped_nonalpha := dropped_nonalpha st + 1\<rparr>)
                        else (case part_of_speech' of
                                None \<Rightarrow> Inl TypeError
                              | Some p \<Rightarrow>
                             (case definition' of
                                None \<Rightarrow> Inl TypeError
                              | Some d \<Rightarrow>
                                  Inr (st\<lparr>normalized_entries := normalized_entries st @
                                    [\<lparr> source_file = source_file',
                                       entry_index = entry_index',
                                       word = clean_whitespace w,
                                       normalized_word = normalized,
                                       part_of_speech = clean_whitespace p,
                                       definition_text = clean_whitespace d,
                                       etymology = [],
                                       first_letter = [c],
                                       number_of_letters = length normalized \<rparr>]\<rparr>))))"

fun normalize_rows :: "pylib \<Rightarrow> norm_state \<Rightarrow> row list \<Rightarrow> error + norm_state" where
  "normalize_rows py st [] = Inr st"
| "normalize_rows py st (r # rs) =
     (case normalize_row py st r of Inl e \<Rightarrow> Inl e | Inr st' \<Rightarrow> normalize_rows py st' rs)"

definition pick_better_definition :: "NormalizedEntry \<Rightarrow> NormalizedEntry \<Rightarrow> NormalizedEntry" where
  "pick_better_definition existing candidate =
     (if length (strip (definition_text candidate)) > length (strip (definition_text existing))
      then candidate else existing)"

text \<open>A row of the collisions report (the dictionary appended at lines 144 to 154).\<close>

record CollisionRecord =
  c_normalized_word :: ustr
  kept_word :: ustr
  dropped_word :: ustr
  kept_source_file :: cell
  dropped_source_file :: cell
  kept_entry_index :: ustr
  dropped_entry_index :: ustr

text \<open>
  The state of the dedupe loop. \<open>kept_by_normalized\<close> is a Python \<open>dict\<close>, which keeps
  its keys in insertion order: an association list, where \<open>AList.update\<close> overwrites
  the value of a present key in place and appends a new key at the end.
\<close>

record dedupe_state =
  kept_by_normalized :: "(ustr \<times> NormalizedEntry) list"
  collisions :: "CollisionRecord list"

definition dedupe_init :: dedupe_state where
  "dedupe_init = \<lparr> kept_by_normalized = [], collisions = [] \<rparr>"

text \<open>
  One iteration of \<open>for entry in normalized_entries\<close> (lines 134 to 154). The test
  \<open>better is existing\<close> compares object identity; \<open>pick_better_definition\<close> returns
  the candidate object only when the two definitions differ in trimmed length, so the
  identity test and the equality of values agree (lemma \<open>pick_is_existing\<close>).
\<close>

definition dedupe_step :: "dedupe_state \<Rightarrow> NormalizedEntry \<Rightarrow> dedupe_state" where
  "dedupe_step st entry =
     (case map_of (kept_by_normalized st) (normalized_word entry) of
        None \<Rightarrow>
          st\<lparr>kept_by_normalized :=
               AList.update (normalized_word entry) entry (kept_by_normalized st)\<rparr>
      | Some existing \<Rightarrow>
          let better = pick_better_definition existing entry;
              dropped = (if better = existing then entry else existing)
          in \<lparr> kept_by_normalized =
                 AList.update (normalized_word entry) better (kept_by_normalized st),
               collisions = collisions st @
                 [\<lparr> c_normalized_word = normalized_word entry,
                    kept_word = word better,
                    dropped_word = word dropped,
                    kept_source_file = source_file better,
                    dropped_source_file = source_file dropped,
                    kept_entry_index = str_int (entry_index better),
                    dropped_entry_index = str_int (entry_index dropped) \<rparr>] \<rparr>)"

definition dedupe :: "NormalizedEntry list \<Rightarrow> dedupe_state" where
  "dedupe entries = foldl dedupe_step dedupe_init entries"

text \<open>
  What \<open>main\<close> computes before it prints and writes: the entries to write, the
  collisions and the two counters. \<open>do_dedupe\<close> is \<open>to_bool(args.dedupe)\<close>.
\<close>

record normalize_result =
  final_entries :: "NormalizedEntry list"
  collision_report :: "CollisionRecord list"
  n_dropped_empty :: nat
  n_dropped_nonalpha :: nat

definition normalize_main :: "pylib \<Rightarrow> bool \<Rightarrow> row list \<Rightarrow> error + normalize_result" where
  "normalize_main py do_dedupe raw_rows =
     (case normalize_rows py norm_init raw_rows of
        Inl e \<Rightarrow> Inl e
      | Inr st \<Rightarrow>
          if do_dedupe
          then let d = dedupe (normalized_entries st)
               in Inr \<lparr> final_entries = map snd (kept_by_normalized d),
                         collision_report = collisions d,
                         n_dropped_empty = dropped_empty st,
                         n_dropped_nonalpha = dropped_nonalpha st \<rparr>
          else Inr \<lparr> final_entries = normalized_entries st,
                     collision_report = [],
                     n_dropped_empty = dropped_empty st,
                     n_dropped_nonalpha = dropped_nonalpha st \<rparr>)"

section \<open>compute_lex_rank.py\<close>

text \<open>
  The tuple \<open>sort_key\<close> returns; it raises where \<open>int\<close> does. Its first three
  components are what \<open>row.get(key, "")\<close> returns, so each can be \<open>None\<close>.
\<close>

type_synonym rank_key = "cell \<times> cell \<times> cell \<times> int"

definition sort_key_row :: "pylib \<Rightarrow> row \<Rightarrow> error + rank_key" where
  "sort_key_row py r =
     (let normalized = get_or_empty r ''normalized_word'';
          word' = get_or_empty r ''word'';
          source_file' = get_or_empty r ''source_file''
      in case int_or_zero py r ''entry_index'' of
           Inl e \<Rightarrow> Inl e
         | Inr entry_index' \<Rightarrow> Inr (normalized, word', source_file', entry_index'))"

text \<open>
  \<open>sorted(rows, key=sort_key)\<close> calls the key function once on every row, in list
  order, before it compares anything: the first \<open>ValueError\<close> ends the call.
\<close>

fun decorate :: "pylib \<Rightarrow> row list \<Rightarrow> error + (rank_key \<times> row) list" where
  "decorate py [] = Inr []"
| "decorate py (r # rs) =
     (case sort_key_row py r of
        Inl e \<Rightarrow> Inl e
      | Inr k \<Rightarrow> (case decorate py rs of Inl e \<Rightarrow> Inl e | Inr krs \<Rightarrow> Inr ((k, r) # krs)))"

text \<open>
  Comparing two key tuples with \<open><\<close>, Python looks for the first position where they
  differ and compares the two components there; a \<open>None\<close> against a \<open>str\<close> raises
  \<open>TypeError\<close>. \<open>incomparable a b\<close> says that the comparison of \<open>a\<close> and \<open>b\<close> raises.
\<close>

definition mixed :: "cell \<Rightarrow> cell \<Rightarrow> bool" where
  "mixed x y \<longleftrightarrow> (x = None) \<noteq> (y = None)"

fun incomparable :: "rank_key \<Rightarrow> rank_key \<Rightarrow> bool" where
  "incomparable (a1, a2, a3, ai) (b1, b2, b3, bi) \<longleftrightarrow>
     (if a1 \<noteq> b1 then mixed a1 b1
      else if a2 \<noteq> b2 then mixed a2 b2
      else if a3 \<noteq> b3 then mixed a3 b3
      else False)"

text \<open>
  \<open>sorted\<close> is a stable comparison sort. Where no two keys of the list are incomparable,
  no comparison raises and the result is the stable sort of the list by the key, which
  is unique and which \<open>sort_key\<close> of \<open>HOL.List\<close> computes; the order of
  \<open>HOL-Library.Option_ord\<close> on cells puts \<open>None\<close> below every \<open>str\<close> and agrees with
  Python's on every pair that Python can compare. Where two keys are incomparable,
  \<open>sorted\<close> raises \<open>TypeError\<close>: were every comparison it makes to succeed, its result
  would be the stable sort both for the order with \<open>None\<close> below every \<open>str\<close> and for the
  order with \<open>None\<close> above, and these two differ on the incomparable pair.
\<close>

definition sorted_rows :: "pylib \<Rightarrow> row list \<Rightarrow> error + row list" where
  "sorted_rows py rows =
     (case decorate py rows of
        Inl e \<Rightarrow> Inl e
      | Inr krs \<Rightarrow>
          if list_ex (\<lambda>a. list_ex (\<lambda>b. incomparable a b) (map fst krs)) (map fst krs)
          then Inl TypeError
          else Inr (map snd (sort_key fst krs)))"

text \<open>
  A value in a ranked row (\<open>dict[str, object]\<close>): the cells read from the CSV file,
  and the rank, which is an \<open>int\<close>.
\<close>

datatype ranked_cell = Cell cell | IntCell int

type_synonym ranked_row = "string \<Rightarrow> ranked_cell option"

text \<open>\<open>{**row, "lex_rank": idx}\<close>\<close>

definition with_lex_rank :: "row \<Rightarrow> int \<Rightarrow> ranked_row" where
  "with_lex_rank r idx = (map_option Cell \<circ> r)(''lex_rank'' \<mapsto> IntCell idx)"

text \<open>\<open>for idx, row in enumerate(rows_sorted, start=1)\<close>, appending to \<open>ranked_rows\<close>.\<close>

fun rank_from :: "int \<Rightarrow> row list \<Rightarrow> ranked_row list" where
  "rank_from idx [] = []"
| "rank_from idx (r # rs) = with_lex_rank r idx # rank_from (idx + 1) rs"

text \<open>What \<open>main\<close> of compute_lex_rank.py hands to \<open>write_csv_rows\<close>.\<close>

definition compute_lex_rank :: "pylib \<Rightarrow> row list \<Rightarrow> error + ranked_row list" where
  "compute_lex_rank py rows =
     (case sorted_rows py rows of
        Inl e \<Rightarrow> Inl e
      | Inr rows_sorted \<Rightarrow> Inr (rank_from 1 rows_sorted))"

text \<open>Reading a ranked row: its rank, and a cell as \<open>row.get(key, "")\<close> returns it.\<close>

definition lex_rank_of :: "ranked_row \<Rightarrow> int option" where
  "lex_rank_of rr = (case rr ''lex_rank'' of Some (IntCell n) \<Rightarrow> Some n | _ \<Rightarrow> None)"

definition text_of :: "ranked_row \<Rightarrow> string \<Rightarrow> cell" where
  "text_of rr key = (case rr key of Some (Cell c) \<Rightarrow> c | _ \<Rightarrow> Some [])"

text \<open>
  A ranked row with its rank taken away again: the input row of a second run of the
  Rank Assigner on its own output, in memory.
\<close>

definition strip_rank :: "ranked_row \<Rightarrow> row" where
  "strip_rank rr =
     (\<lambda>key. if key = ''lex_rank'' then None
            else (case rr key of Some (Cell c) \<Rightarrow> Some c | _ \<Rightarrow> None))"

text \<open>
  The same row after it went through the output file: \<open>write_csv_rows\<close> writes the
  columns of \<open>fieldnames\<close> only, a missing or \<open>None\<close> value as the empty string and an
  \<open>int\<close> in decimal, and every column read back is a \<open>str\<close>. \<open>reread_without_rank\<close> is
  the row read back, without its \<open>lex_rank\<close> column.
\<close>

definition fieldnames :: "string list" where
  "fieldnames =
     [''source_file'', ''entry_index'', ''word'', ''normalized_word'', ''part_of_speech'',
      ''definition'', ''etymology'', ''first_letter'', ''number_of_letters'', ''lex_rank'']"

definition written :: "ranked_cell option \<Rightarrow> ustr" where
  "written v =
     (case v of
        None \<Rightarrow> []
      | Some (Cell None) \<Rightarrow> []
      | Some (Cell (Some s)) \<Rightarrow> s
      | Some (IntCell n) \<Rightarrow> str_int n)"

definition reread_without_rank :: "ranked_row \<Rightarrow> row" where
  "reread_without_rank rr =
     (\<lambda>key. if key \<in> set fieldnames \<and> key \<noteq> ''lex_rank''
            then Some (Some (written (rr key))) else None)"

text \<open>
  The sort key of a row that went through the output file: every \<open>None\<close> has become the
  empty string.
\<close>

definition written_key :: "rank_key \<Rightarrow> rank_key" where
  "written_key k =
     (case k of (a, b, c, n) \<Rightarrow>
        (Some (case a of None \<Rightarrow> [] | Some s \<Rightarrow> s),
         Some (case b of None \<Rightarrow> [] | Some s \<Rightarrow> s),
         Some (case c of None \<Rightarrow> [] | Some s \<Rightarrow> s), n))"

section \<open>sanity_check_ranked.py\<close>

text \<open>The messages appended to \<open>errors\<close>, with the values their f-strings print.\<close>

datatype violation =
    NormalizedEmpty nat
  | NonAlpha nat ustr
  | FirstLetterMismatch nat ustr ustr
  | NumberOfLettersMismatch nat int nat
  | DuplicateLexRank nat int
  | OrderingViolation nat ustr ustr
  | NotContiguous

record check_state =
  seen_ranks :: "int set"
  last_word :: "ustr option"
  errors :: "violation list"

definition check_init :: check_state where
  "check_init = \<lparr> seen_ranks = {}, last_word = None, errors = [] \<rparr>"

text \<open>\<open>(row.get(key) or "").strip()\<close>\<close>

definition get_stripped :: "row \<Rightarrow> string \<Rightarrow> ustr" where
  "get_stripped r key = strip (get_or_falsy_empty r key)"

text \<open>The four values the loop body reads from a row first (lines 33 to 36).\<close>

record cells =
  c_normalized :: ustr
  c_first_letter :: ustr
  c_number_of_letters :: int
  c_lex_rank :: int

definition read_row :: "pylib \<Rightarrow> row \<Rightarrow> error + cells" where
  "read_row py r =
     (let normalized = get_stripped r ''normalized_word'';
          first_letter' = get_stripped r ''first_letter''
      in case int_or_zero py r ''number_of_letters'' of
           Inl e \<Rightarrow> Inl e
         | Inr number_of_letters' \<Rightarrow>
        (case int_or_zero py r ''lex_rank'' of
           Inl e \<Rightarrow> Inl e
         | Inr lex_rank \<Rightarrow>
             Inr \<lparr> c_normalized = normalized, c_first_letter = first_letter',
                    c_number_of_letters = number_of_letters', c_lex_rank = lex_rank \<rparr>))"

text \<open>
  One iteration of \<open>for idx, row in enumerate(rows, start=1)\<close> (lines 33 to 56): the
  checks in the order of the source, each appending at most one message.
\<close>

definition check_row :: "pylib \<Rightarrow> check_state \<Rightarrow> nat \<Rightarrow> row \<Rightarrow> error + check_state" where
  "check_row py st idx r =
     (case read_row py r of
        Inl e \<Rightarrow> Inl e
      | Inr c \<Rightarrow>
          let normalized = c_normalized c;
              e1 = (if normalized = [] then [NormalizedEmpty idx] else []);
              e2 = (if normalized \<noteq> [] \<and> list_ex (\<lambda>ch. ch < 97 \<or> ch > 122) normalized
                    then [NonAlpha idx normalized] else []);
              e3 = (if normalized \<noteq> [] \<and> c_first_letter c \<noteq> take 1 normalized
                    then [FirstLetterMismatch idx (c_first_letter c) (take 1 normalized)]
                    else []);
              e4 = (if normalized \<noteq> [] \<and> c_number_of_letters c \<noteq> int (length normalized)
                    then [NumberOfLettersMismatch idx (c_number_of_letters c) (length normalized)]
                    else []);
              e5 = (if c_lex_rank c \<in> seen_ranks st
                    then [DuplicateLexRank idx (c_lex_rank c)] else []);
              e6 = (case last_word st of
                      None \<Rightarrow> []
                    | Some lw \<Rightarrow>
                        if normalized \<noteq> [] \<and> normalized < lw
                        then [OrderingViolation idx normalized lw] else [])
          in Inr \<lparr> seen_ranks = insert (c_lex_rank c) (seen_ranks st),
                   last_word = (if normalized \<noteq> [] then Some normalized else last_word st),
                   errors = errors st @ e1 @ e2 @ e3 @ e4 @ e5 @ e6 \<rparr>)"

fun check_rows :: "pylib \<Rightarrow> check_state \<Rightarrow> nat \<Rightarrow> row list \<Rightarrow> error + check_state" where
  "check_rows py st idx [] = Inr st"
| "check_rows py st idx (r # rs) =
     (case check_row py st idx r of
        Inl e \<Rightarrow> Inl e
      | Inr st' \<Rightarrow> check_rows py st' (idx + 1) rs)"

text \<open>
  The list \<open>errors\<close> when \<open>main\<close> reaches \<open>if errors:\<close>; the caller handles the empty
  input before.
\<close>

definition collect_errors :: "pylib \<Rightarrow> row list \<Rightarrow> error + violation list" where
  "collect_errors py rows =
     (case check_rows py check_init 1 rows of
        Inl e \<Rightarrow> Inl e
      | Inr st \<Rightarrow>
          Inr (errors st @
               (if seen_ranks st \<noteq> {1 .. int (length rows)} then [NotContiguous] else [])))"

text \<open>The value \<open>main\<close> of sanity_check_ranked.py returns, which is the exit code.\<close>

definition sanity_main :: "pylib \<Rightarrow> row list \<Rightarrow> error + int" where
  "sanity_main py rows =
     (if rows = [] then Inr 2
      else case collect_errors py rows of
             Inl e \<Rightarrow> Inl e
           | Inr errs \<Rightarrow> if errs \<noteq> [] then Inr 1 else Inr 0)"

text \<open>
  \<open>raise SystemExit(main(...))\<close>: the process exits with the returned code; an uncaught
  exception ends the interpreter with exit code 1.
\<close>

definition exit_code :: "error + int \<Rightarrow> int" where
  "exit_code res = (case res of Inl e \<Rightarrow> 1 | Inr code \<Rightarrow> code)"

section \<open>The checks of the Invariant Verifier, stated on the data\<close>

text \<open>The cells of all rows, as the loop reads them; the first \<open>ValueError\<close> ends the pass.\<close>

fun read_rows :: "pylib \<Rightarrow> row list \<Rightarrow> error + cells list" where
  "read_rows py [] = Inr []"
| "read_rows py (r # rs) =
     (case read_row py r of
        Inl e \<Rightarrow> Inl e
      | Inr c \<Rightarrow> (case read_rows py rs of Inl e \<Rightarrow> Inl e | Inr cs \<Rightarrow> Inr (c # cs)))"

text \<open>
  The six checks of the specification (section 4.4), on the rows in file order: every
  key is a non-empty string of letters \<open>a\<close> to \<open>z\<close>, \<open>first_letter\<close> is its first
  character, \<open>number_of_letters\<close> is its length, no \<open>lex_rank\<close> occurs twice, the keys are
  non-decreasing, and the set of ranks is \<open>{1, ..., N}\<close>.
\<close>

definition checks_pass :: "cells list \<Rightarrow> bool" where
  "checks_pass cs \<longleftrightarrow>
     list_all (\<lambda>c. c_normalized c \<noteq> [] \<and>
                   list_all (\<lambda>ch. 97 \<le> ch \<and> ch \<le> 122) (c_normalized c) \<and>
                   c_first_letter c = take 1 (c_normalized c) \<and>
                   c_number_of_letters c = int (length (c_normalized c))) cs \<and>
     distinct (map c_lex_rank cs) \<and>
     sorted (map c_normalized cs) \<and>
     set (map c_lex_rank cs) = {1 .. int (length cs)}"

definition is_ordering_violation :: "violation \<Rightarrow> bool" where
  "is_ordering_violation v = (case v of OrderingViolation _ _ _ \<Rightarrow> True | _ \<Rightarrow> False)"

text \<open>The non-empty keys in the order of the rows in the file.\<close>

definition keys_in_file_order :: "row list \<Rightarrow> ustr list" where
  "keys_in_file_order rows =
     filter (\<lambda>k. k \<noteq> []) (map (\<lambda>r. get_stripped r ''normalized_word'') rows)"

text \<open>
  The sequence the specification names for the ordering check: the keys of the rows,
  walked in ascending \<open>lex_rank\<close> order.
\<close>

definition spec_keys_in_lex_rank_order :: "pylib \<Rightarrow> row list \<Rightarrow> error + ustr list" where
  "spec_keys_in_lex_rank_order py rows =
     (case read_rows py rows of
        Inl e \<Rightarrow> Inl e
      | Inr cs \<Rightarrow> Inr (map c_normalized (sort_key c_lex_rank cs)))"

section \<open>Evaluating the concrete runtime\<close>

lemma nfkd_latin1_below_160: "c < 160 \<Longrightarrow> nfkd_latin1 c = [c]"
  by (simp add: nfkd_latin1_def nfkd_table_def)

lemma nfkd_latin1_e_acute: "nfkd_latin1 233 = [101, 769]"
  by (simp add: nfkd_latin1_def nfkd_table_def)

lemma int_ascii_digit: "48 \<le> c \<Longrightarrow> c \<le> 57 \<Longrightarrow> int_ascii [c] = Some (int (c - 48))"
  by (simp add: int_ascii_def int_blank_def)

lemma int_ascii_empty: "int_ascii [] = None"
  by (simp add: int_ascii_def)

lemma cpython_int_str: "int_str cpython_latin1 s = int_ascii s"
  by (simp add: cpython_latin1_def)

lemma cafe_clean:
  "clean_whitespace [67, 97, 102, 233, 45, 49, 50, 51, 33] =
     [67, 97, 102, 233, 45, 49, 50, 51, 33]"
  by (simp add: clean_whitespace_def strip_def is_space_def)

lemma cafe_lower:
  "map lower_latin1 [67, 97, 102, 233, 45, 49, 50, 51, 33] =
     [99, 97, 102, 233, 45, 49, 50, 51, 33]"
  by (simp add: lower_latin1_def)

lemma cafe_nfkd:
  "concat (map nfkd_latin1 [99, 97, 102, 233, 45, 49, 50, 51, 33]) =
     [99, 97, 102, 101, 769, 45, 49, 50, 51, 33]"
  by (simp add: nfkd_latin1_below_160 nfkd_latin1_e_acute)

lemma cafe_key:
  "normalize_word cpython_latin1 [67, 97, 102, 233, 45, 49, 50, 51, 33] = [99, 97, 102, 101]"
proof -
  have "str_lower cpython_latin1 (clean_whitespace [67, 97, 102, 233, 45, 49, 50, 51, 33]) =
        [99, 97, 102, 233, 45, 49, 50, 51, 33]"
    by (simp only: cpython_latin1_def pylib.select_convs cafe_clean cafe_lower)
  moreover have "nfkd cpython_latin1 [99, 97, 102, 233, 45, 49, 50, 51, 33] =
        [99, 97, 102, 101, 769, 45, 49, 50, 51, 33]"
    by (simp only: cpython_latin1_def pylib.select_convs cafe_nfkd)
  ultimately show ?thesis
    by (simp add: normalize_word_def)
qed

lemma digits_key: "normalize_word cpython_latin1 [49, 50, 51] = []"
proof -
  have "str_lower cpython_latin1 (clean_whitespace [49, 50, 51]) = [49, 50, 51]"
    by (simp add: cpython_latin1_def clean_whitespace_def strip_def is_space_def lower_latin1_def)
  moreover have "nfkd cpython_latin1 [49, 50, 51] = [49, 50, 51]"
    by (simp add: cpython_latin1_def nfkd_latin1_below_160)
  ultimately show ?thesis
    by (simp add: normalize_word_def)
qed

section \<open>The Normalizer\<close>

lemma normalize_word_letters:
  "list_all (\<lambda>ch. 97 \<le> ch \<and> ch \<le> 122) (normalize_word py raw)"
  by (simp add: normalize_word_def list_all_iff)

lemma normalize_word_no_nonalpha:
  "\<not> list_ex (\<lambda>ch. ch < 97 \<or> ch > 122) (normalize_word py raw)"
  using normalize_word_letters [of py raw] by (auto simp: list_all_iff list_ex_iff)

lemma normalize_row_cases:
  assumes "normalize_row py st0 r = Inr st"
  obtains w where "get_or_empty r ''word'' = Some w"
    and "dropped_nonalpha st = dropped_nonalpha st0"
    and "dropped_empty st = dropped_empty st0 + (if normalize_word py w = [] then 1 else 0)"
    and "map normalized_word (normalized_entries st) =
         map normalized_word (normalized_entries st0) @
           filter (\<lambda>k. k \<noteq> []) [normalize_word py w]"
proof -
  from assms obtain w where w: "get_or_empty r ''word'' = Some w"
    by (auto simp: normalize_row_def Let_def split: sum.splits option.splits)
  show thesis
  proof (rule that [OF w])
    show "dropped_nonalpha st = dropped_nonalpha st0"
      using assms w normalize_word_no_nonalpha [of py w]
      by (auto simp: normalize_row_def Let_def split: sum.splits list.splits option.splits)
    show "dropped_empty st = dropped_empty st0 + (if normalize_word py w = [] then 1 else 0)"
      using assms w normalize_word_no_nonalpha [of py w]
      by (auto simp: normalize_row_def Let_def split: sum.splits list.splits option.splits)
    show "map normalized_word (normalized_entries st) =
         map normalized_word (normalized_entries st0) @
           filter (\<lambda>k. k \<noteq> []) [normalize_word py w]"
      using assms w normalize_word_no_nonalpha [of py w]
      by (auto simp: normalize_row_def Let_def split: sum.splits list.splits option.splits)
  qed
qed

text \<open>
  A run of the loop that completes has met a \<open>str\<close> in the word cell of every row.
\<close>

lemma normalize_rows_inv:
  "normalize_rows py st0 rows = Inr st \<Longrightarrow>
     \<exists>ws. map (\<lambda>r. get_or_empty r ''word'') rows = map Some ws \<and>
       dropped_nonalpha st = dropped_nonalpha st0 \<and>
       dropped_empty st = dropped_empty st0 +
         length (filter (\<lambda>w. normalize_word py w = []) ws) \<and>
       map normalized_word (normalized_entries st) =
         map normalized_word (normalized_entries st0) @
           filter (\<lambda>k. k \<noteq> []) (map (normalize_word py) ws)"
proof (induction rows arbitrary: st0)
  case Nil
  then show ?case by simp
next
  case (Cons r rs)
  from Cons.prems obtain st1 where s1: "normalize_row py st0 r = Inr st1"
    and s2: "normalize_rows py st1 rs = Inr st"
    by (auto split: sum.splits)
  from s1 obtain w where w: "get_or_empty r ''word'' = Some w"
    and a: "dropped_nonalpha st1 = dropped_nonalpha st0"
    and b: "dropped_empty st1 = dropped_empty st0 + (if normalize_word py w = [] then 1 else 0)"
    and c: "map normalized_word (normalized_entries st1) =
         map normalized_word (normalized_entries st0) @
           filter (\<lambda>k. k \<noteq> []) [normalize_word py w]"
    by (rule normalize_row_cases)
  from Cons.IH [OF s2] obtain ws where ws: "map (\<lambda>r. get_or_empty r ''word'') rs = map Some ws"
    and a': "dropped_nonalpha st = dropped_nonalpha st1"
    and b': "dropped_empty st = dropped_empty st1 +
         length (filter (\<lambda>w. normalize_word py w = []) ws)"
    and c': "map normalized_word (normalized_entries st) =
         map normalized_word (normalized_entries st1) @
           filter (\<lambda>k. k \<noteq> []) (map (normalize_word py) ws)"
    by blast
  have "map (\<lambda>r. get_or_empty r ''word'') (r # rs) = map Some (w # ws)"
    using w ws by simp
  moreover have "dropped_nonalpha st = dropped_nonalpha st0"
    using a a' by simp
  moreover have "dropped_empty st = dropped_empty st0 +
         length (filter (\<lambda>w. normalize_word py w = []) (w # ws))"
    using b b' by simp
  moreover have "map normalized_word (normalized_entries st) =
         map normalized_word (normalized_entries st0) @
           filter (\<lambda>k. k \<noteq> []) (map (normalize_word py) (w # ws))"
    using c c' by simp
  ultimately show ?case by blast
qed

text \<open>
  C9. For every raw string, and whatever \<open>str.lower\<close> and the NFKD tables do,
  \<open>normalize_word\<close> returns letters \<open>a\<close> to \<open>z\<close> only. So in every run of the first loop
  of \<open>main\<close> that completes, and after every prefix of it, \<open>dropped_nonalpha\<close> is 0:
  with \<open>ws\<close> the words of the rows (every word cell of such a run holds a \<open>str\<close>), the
  rows dropped are exactly those whose key is empty (they are counted by
  \<open>dropped_empty\<close>), and every other row yields one entry, in order.
\<close>

theorem normalize_word_letters_only_nonalpha_unreachable:
  "list_all (\<lambda>ch. 97 \<le> ch \<and> ch \<le> 122) (normalize_word py raw) \<and>
   (normalize_rows py norm_init rows = Inr st \<longrightarrow>
      dropped_nonalpha st = 0 \<and>
      (\<exists>ws. map (\<lambda>r. get_or_empty r ''word'') rows = map Some ws \<and>
         dropped_empty st = length (filter (\<lambda>w. normalize_word py w = []) ws) \<and>
         map normalized_word (normalized_entries st) =
           filter (\<lambda>k. k \<noteq> []) (map (normalize_word py) ws)))"
proof (intro conjI impI)
  show "list_all (\<lambda>ch. 97 \<le> ch \<and> ch \<le> 122) (normalize_word py raw)"
    by (rule normalize_word_letters)
next
  assume run: "normalize_rows py norm_init rows = Inr st"
  from normalize_rows_inv [OF run]
  show "dropped_nonalpha st = 0"
    by (auto simp: norm_init_def)
  from normalize_rows_inv [OF run]
  show "\<exists>ws. map (\<lambda>r. get_or_empty r ''word'') rows = map Some ws \<and>
         dropped_empty st = length (filter (\<lambda>w. normalize_word py w = []) ws) \<and>
         map normalized_word (normalized_entries st) =
           filter (\<lambda>k. k \<noteq> []) (map (normalize_word py) ws)"
    by (auto simp: norm_init_def)
qed

theorem normalize_word_letters_only_nonalpha_unreachable_witness:
  "normalize_rows cpython_latin1 norm_init [[''word'' \<mapsto> Some [49, 50, 51]]] =
     Inr \<lparr> normalized_entries = [], dropped_empty = 1, dropped_nonalpha = 0 \<rparr> \<and>
   dropped_nonalpha \<lparr> normalized_entries = [], dropped_empty = 1, dropped_nonalpha = 0 \<rparr> = 0 \<and>
   list_all (\<lambda>ch. 97 \<le> ch \<and> ch \<le> 122)
     (normalize_word cpython_latin1 [67, 97, 102, 233, 45, 49, 50, 51, 33])"
proof -
  have run: "normalize_rows cpython_latin1 norm_init [[''word'' \<mapsto> Some [49, 50, 51]]] =
     Inr \<lparr> normalized_entries = [], dropped_empty = 1, dropped_nonalpha = 0 \<rparr>"
    by (simp add: normalize_row_def int_or_zero_def get_or_empty_def digits_key norm_init_def
        ascii_def cpython_int_str int_ascii_digit)
  from normalize_word_letters_only_nonalpha_unreachable
    [of cpython_latin1 "[67, 97, 102, 233, 45, 49, 50, 51, 33]"
      "[[''word'' \<mapsto> Some [49, 50, 51]]]"
      "\<lparr> normalized_entries = [], dropped_empty = 1, dropped_nonalpha = 0 \<rparr>"] run
  show ?thesis by simp
qed

text \<open>
  C1 (as the code has it). A row whose word is \<open>Caf\<close> U+00E9 \<open>-123!\<close> (code points
  67, 97, 102, 233, 45, 49, 50, 51, 33) and whose \<open>entry_index\<close> parses is not dropped: NFKD splits
  U+00E9 into \<open>e\<close> and the combining acute U+0301, the ASCII filter removes the mark and
  keeps the \<open>e\<close>, and the appended entry has the key \<open>cafe\<close>, \<open>number_of_letters\<close> 4 and
  \<open>first_letter\<close> \<open>c\<close>. The entry is appended for every such row whose \<open>part_of_speech\<close>
  and \<open>definition\<close> cells are not \<open>None\<close>; where one of them is, cleaning it raises
  \<open>TypeError\<close> (the row is not counted as dropped either).
\<close>

theorem cafe_row_normalized:
  assumes "r ''word'' = Some (Some [67, 97, 102, 233, 45, 49, 50, 51, 33])"
    and "int_or_zero cpython_latin1 r ''entry_index'' = Inr n"
  shows "normalize_row cpython_latin1 st r =
           (case get_or_empty r ''part_of_speech'' of
              None \<Rightarrow> Inl TypeError
            | Some p \<Rightarrow>
           (case get_or_empty r ''definition'' of
              None \<Rightarrow> Inl TypeError
            | Some d \<Rightarrow>
                Inr (st\<lparr>normalized_entries := normalized_entries st @
                  [\<lparr> source_file = get_or_empty r ''source_file'',
                     entry_index = n,
                     word = [67, 97, 102, 233, 45, 49, 50, 51, 33],
                     normalized_word = ascii ''cafe'',
                     part_of_speech = clean_whitespace p,
                     definition_text = clean_whitespace d,
                     etymology = [],
                     first_letter = ascii ''c'',
                     number_of_letters = 4 \<rparr>]\<rparr>)))"
  using assms
  by (simp add: normalize_row_def get_or_empty_def cafe_key cafe_clean ascii_def
      split: option.splits)

theorem cafe_row_normalized_witness:
  "normalize_row cpython_latin1 norm_init
          [''word'' \<mapsto> Some [67, 97, 102, 233, 45, 49, 50, 51, 33],
           ''entry_index'' \<mapsto> Some [55]] =
     Inr \<lparr> normalized_entries =
             [\<lparr> source_file = Some [], entry_index = 7,
                word = [67, 97, 102, 233, 45, 49, 50, 51, 33],
                normalized_word = ascii ''cafe'', part_of_speech = [], definition_text = [],
                etymology = [], first_letter = ascii ''c'', number_of_letters = 4 \<rparr>],
           dropped_empty = 0, dropped_nonalpha = 0 \<rparr>"
  using cafe_row_normalized
    [of "[''word'' \<mapsto> Some [67, 97, 102, 233, 45, 49, 50, 51, 33],
          ''entry_index'' \<mapsto> Some [55]]"
      7 norm_init]
  by (simp add: int_or_zero_def cpython_int_str int_ascii_digit norm_init_def get_or_empty_def
      clean_whitespace_def strip_def ascii_def)

text \<open>
  The key of that word is not \<open>caf\<close> and its length is not 3.
\<close>

theorem cafe_key_counterexample:
  "normalize_word cpython_latin1 [67, 97, 102, 233, 45, 49, 50, 51, 33] \<noteq> ascii ''caf'' \<and>
   length (normalize_word cpython_latin1 [67, 97, 102, 233, 45, 49, 50, 51, 33]) \<noteq> 3"
  by (simp add: cafe_key ascii_def)

section \<open>The Collision Resolver\<close>

lemma pick_is_existing:
  "pick_better_definition existing candidate = existing \<longleftrightarrow>
     \<not> length (strip (definition_text candidate)) > length (strip (definition_text existing))"
  by (auto simp: pick_better_definition_def)

lemma map_of_Some_key: "map_of al k = Some v \<Longrightarrow> k \<in> set (map fst al)"
  by (metis map_of_eq_None_iff option.distinct(1) set_map)

lemma dedupe_step_keys:
  "map fst (kept_by_normalized (dedupe_step st entry)) =
     (if normalized_word entry \<in> set (map fst (kept_by_normalized st))
      then map fst (kept_by_normalized st)
      else map fst (kept_by_normalized st) @ [normalized_word entry])"
  by (simp add: dedupe_step_def Let_def update_keys split: option.splits)

lemma dedupe_step_lookup:
  "map_of (kept_by_normalized (dedupe_step st entry)) k =
     (if k = normalized_word entry
      then (case map_of (kept_by_normalized st) k of
              None \<Rightarrow> Some entry
            | Some existing \<Rightarrow> Some (pick_better_definition existing entry))
      else map_of (kept_by_normalized st) k)"
  by (simp add: dedupe_step_def Let_def update_conv' split: option.splits)

text \<open>
  C4. When the incoming entry meets a kept entry for its key, the entry kept after the
  step is the incoming one if its trimmed definition is strictly longer (and then the two
  entries differ), and the existing one otherwise: on equal trimmed lengths, both empty
  included, the first-seen entry stays. The key keeps its place in the dictionary and no
  other key is touched.
\<close>

theorem dedupe_step_keeps_longer_definition:
  assumes "map_of (kept_by_normalized st) (normalized_word entry) = Some existing"
  shows "(length (strip (definition_text entry)) > length (strip (definition_text existing)) \<longrightarrow>
            map_of (kept_by_normalized (dedupe_step st entry)) (normalized_word entry) = Some entry \<and>
            entry \<noteq> existing) \<and>
         (length (strip (definition_text entry)) \<le> length (strip (definition_text existing)) \<longrightarrow>
            map_of (kept_by_normalized (dedupe_step st entry)) (normalized_word entry) =
              Some existing) \<and>
         map fst (kept_by_normalized (dedupe_step st entry)) = map fst (kept_by_normalized st) \<and>
         (\<forall>k. k \<noteq> normalized_word entry \<longrightarrow>
            map_of (kept_by_normalized (dedupe_step st entry)) k =
              map_of (kept_by_normalized st) k)"
proof (intro conjI impI allI)
  assume longer: "length (strip (definition_text entry)) > length (strip (definition_text existing))"
  then show "map_of (kept_by_normalized (dedupe_step st entry)) (normalized_word entry) = Some entry"
    using assms by (simp add: dedupe_step_lookup pick_better_definition_def)
  from longer show "entry \<noteq> existing" by auto
next
  assume "length (strip (definition_text entry)) \<le> length (strip (definition_text existing))"
  then show "map_of (kept_by_normalized (dedupe_step st entry)) (normalized_word entry) =
      Some existing"
    using assms by (simp add: dedupe_step_lookup pick_better_definition_def)
next
  from map_of_Some_key [OF assms]
  show "map fst (kept_by_normalized (dedupe_step st entry)) = map fst (kept_by_normalized st)"
    by (simp add: dedupe_step_keys)
next
  fix k assume "k \<noteq> normalized_word entry"
  then show "map_of (kept_by_normalized (dedupe_step st entry)) k =
      map_of (kept_by_normalized st) k"
    by (simp add: dedupe_step_lookup)
qed

text \<open>
  The kept entry for \<open>run\<close> has the definition \<open>a fast pace\<close> (11 characters). An
  incoming entry with \<open>to move fast\<close> (12 characters) replaces it; an incoming entry
  with \<open>a slow pace\<close> and a trailing blank (11 characters after trimming) does not.
\<close>

theorem dedupe_step_keeps_longer_definition_witness:
  "(let short = \<lparr> source_file = Some (ascii ''a''), entry_index = 1, word = ascii ''run'',
          normalized_word = ascii ''run'', part_of_speech = [],
          definition_text = ascii ''a fast pace'', etymology = [], first_letter = ascii ''r'',
          number_of_letters = 3 \<rparr>;
        long = \<lparr> source_file = Some (ascii ''a''), entry_index = 2, word = ascii ''Run'',
          normalized_word = ascii ''run'', part_of_speech = [],
          definition_text = ascii ''to move fast'', etymology = [], first_letter = ascii ''r'',
          number_of_letters = 3 \<rparr>;
        tie = \<lparr> source_file = Some (ascii ''a''), entry_index = 3, word = ascii ''RUN'',
          normalized_word = ascii ''run'', part_of_speech = [],
          definition_text = ascii ''a slow pace '', etymology = [], first_letter = ascii ''r'',
          number_of_letters = 3 \<rparr>;
        st = \<lparr> kept_by_normalized = [(ascii ''run'', short)], collisions = [] \<rparr>
    in map_of (kept_by_normalized st) (normalized_word long) = Some short \<and>
       map_of (kept_by_normalized (dedupe_step st long)) (ascii ''run'') = Some long \<and>
       map_of (kept_by_normalized st) (normalized_word tie) = Some short \<and>
       map_of (kept_by_normalized (dedupe_step st tie)) (ascii ''run'') = Some short)"
  using dedupe_step_keeps_longer_definition
    [of "\<lparr> kept_by_normalized = [(ascii ''run'',
          \<lparr> source_file = Some (ascii ''a''), entry_index = 1, word = ascii ''run'',
          normalized_word = ascii ''run'', part_of_speech = [],
          definition_text = ascii ''a fast pace'', etymology = [], first_letter = ascii ''r'',
          number_of_letters = 3 \<rparr>)],
        collisions = [] \<rparr>"
      "\<lparr> source_file = Some (ascii ''a''), entry_index = 2, word = ascii ''Run'',
          normalized_word = ascii ''run'', part_of_speech = [],
          definition_text = ascii ''to move fast'', etymology = [], first_letter = ascii ''r'',
          number_of_letters = 3 \<rparr>"
      "\<lparr> source_file = Some (ascii ''a''), entry_index = 1, word = ascii ''run'',
          normalized_word = ascii ''run'', part_of_speech = [],
          definition_text = ascii ''a fast pace'', etymology = [], first_letter = ascii ''r'',
          number_of_letters = 3 \<rparr>"]
    dedupe_step_keeps_longer_definition
    [of "\<lparr> kept_by_normalized = [(ascii ''run'',
          \<lparr> source_file = Some (ascii ''a''), entry_index = 1, word = ascii ''run'',
          normalized_word = ascii ''run'', part_of_speech = [],
          definition_text = ascii ''a fast pace'', etymology = [], first_letter = ascii ''r'',
          number_of_letters = 3 \<rparr>)],
        collisions = [] \<rparr>"
      "\<lparr> source_file = Some (ascii ''a''), entry_index = 3, word = ascii ''RUN'',
          normalized_word = ascii ''run'', part_of_speech = [],
          definition_text = ascii ''a slow pace '', etymology = [], first_letter = ascii ''r'',
          number_of_letters = 3 \<rparr>"
      "\<lparr> source_file = Some (ascii ''a''), entry_index = 1, word = ascii ''run'',
          normalized_word = ascii ''run'', part_of_speech = [],
          definition_text = ascii ''a fast pace'', etymology = [], first_letter = ascii ''r'',
          number_of_letters = 3 \<rparr>"]
  by (simp add: Let_def ascii_def strip_def is_space_def)

lemma dedupe_step_collisions_length:
  "length (collisions (dedupe_step st entry)) =
     (if normalized_word entry \<in> set (map fst (kept_by_normalized st))
      then Suc (length (collisions st)) else length (collisions st))"
proof (cases "map_of (kept_by_normalized st) (normalized_word entry)")
  case None
  then have "normalized_word entry \<notin> set (map fst (kept_by_normalized st))"
    by (simp add: map_of_eq_None_iff)
  with None show ?thesis by (simp add: dedupe_step_def)
next
  case (Some existing)
  from map_of_Some_key [OF Some] Some show ?thesis
    by (simp add: dedupe_step_def Let_def)
qed

lemma foldl_dedupe_inv:
  assumes "distinct (map fst (kept_by_normalized st))"
  shows "distinct (map fst (kept_by_normalized (foldl dedupe_step st entries))) \<and>
         set (map fst (kept_by_normalized (foldl dedupe_step st entries))) =
           set (map fst (kept_by_normalized st)) \<union> normalized_word ` set entries \<and>
         length (collisions (foldl dedupe_step st entries)) +
           length (kept_by_normalized (foldl dedupe_step st entries)) =
           length (collisions st) + length (kept_by_normalized st) + length entries"
  using assms
proof (induction entries arbitrary: st)
  case Nil
  then show ?case by simp
next
  case (Cons e es)
  have d: "distinct (map fst (kept_by_normalized (dedupe_step st e)))"
    using Cons.prems by (simp add: dedupe_step_keys)
  have l: "length (collisions (dedupe_step st e)) + length (kept_by_normalized (dedupe_step st e))
           = Suc (length (collisions st) + length (kept_by_normalized st))"
    using dedupe_step_keys [of st e, THEN arg_cong, of length]
    by (simp add: dedupe_step_collisions_length split: if_splits)
  have s: "set (map fst (kept_by_normalized (dedupe_step st e))) =
           insert (normalized_word e) (set (map fst (kept_by_normalized st)))"
    by (auto simp: dedupe_step_keys)
  from Cons.IH [OF d] l s show ?case by auto
qed

lemma dedupe_counts:
  "length (kept_by_normalized (dedupe entries)) = card (normalized_word ` set entries)"
  "length (collisions (dedupe entries)) + card (normalized_word ` set entries) = length entries"
proof -
  let ?d = "dedupe entries"
  from foldl_dedupe_inv [of dedupe_init entries]
  have d: "distinct (map fst (kept_by_normalized ?d))"
    and s: "set (map fst (kept_by_normalized ?d)) = normalized_word ` set entries"
    and l: "length (collisions ?d) + length (kept_by_normalized ?d) = length entries"
    by (simp_all add: dedupe_def dedupe_init_def)
  from d have "card (set (map fst (kept_by_normalized ?d))) = length (kept_by_normalized ?d)"
    using distinct_card by fastforce
  with s show "length (kept_by_normalized ?d) = card (normalized_word ` set entries)"
    by simp
  with l show "length (collisions ?d) + card (normalized_word ` set entries) = length entries"
    by simp
qed

text \<open>
  C10. In dedupe mode every incoming entry that meets a kept entry for its key appends
  exactly one collision record, and an entry with a new key appends none. When the
  incoming entry is not strictly longer (ties included) the record names the incoming
  entry as dropped and the existing one as kept. Over the whole run the number of
  collision records is the number of entries processed minus the number of distinct keys,
  and the number of entries kept is the number of distinct keys.
\<close>

theorem one_collision_record_per_collision:
  "length (collisions (dedupe entries)) = length entries - card (normalized_word ` set entries) \<and>
   length (kept_by_normalized (dedupe entries)) = card (normalized_word ` set entries) \<and>
   (map_of (kept_by_normalized st) (normalized_word entry) = None \<longrightarrow>
      collisions (dedupe_step st entry) = collisions st) \<and>
   (\<forall>existing. map_of (kept_by_normalized st) (normalized_word entry) = Some existing \<longrightarrow>
      (\<exists>c. collisions (dedupe_step st entry) = collisions st @ [c] \<and>
           c_normalized_word c = normalized_word entry \<and>
           (length (strip (definition_text entry)) \<le> length (strip (definition_text existing)) \<longrightarrow>
              dropped_word c = word entry \<and>
              dropped_source_file c = source_file entry \<and>
              dropped_entry_index c = str_int (entry_index entry) \<and>
              kept_word c = word existing \<and>
              kept_source_file c = source_file existing \<and>
              kept_entry_index c = str_int (entry_index existing))))"
proof (intro conjI impI allI)
  from dedupe_counts(2) [of entries]
  show "length (collisions (dedupe entries)) =
      length entries - card (normalized_word ` set entries)"
    by simp
  show "length (kept_by_normalized (dedupe entries)) = card (normalized_word ` set entries)"
    by (rule dedupe_counts(1))
next
  assume "map_of (kept_by_normalized st) (normalized_word entry) = None"
  then show "collisions (dedupe_step st entry) = collisions st"
    by (simp add: dedupe_step_def)
next
  fix existing
  assume ex: "map_of (kept_by_normalized st) (normalized_word entry) = Some existing"
  show "\<exists>c. collisions (dedupe_step st entry) = collisions st @ [c] \<and>
           c_normalized_word c = normalized_word entry \<and>
           (length (strip (definition_text entry)) \<le> length (strip (definition_text existing)) \<longrightarrow>
              dropped_word c = word entry \<and>
              dropped_source_file c = source_file entry \<and>
              dropped_entry_index c = str_int (entry_index entry) \<and>
              kept_word c = word existing \<and>
              kept_source_file c = source_file existing \<and>
              kept_entry_index c = str_int (entry_index existing))"
    using ex by (simp add: dedupe_step_def Let_def pick_better_definition_def)
qed

text \<open>
  Two entries with the key \<open>run\<close> and definitions of equal trimmed length: the second
  meets the first as the kept entry, and the run has one collision record, which names
  the second entry as dropped.
\<close>

theorem one_collision_record_per_collision_witness:
  "(let e1 = \<lparr> source_file = Some (ascii ''a''), entry_index = 1, word = ascii ''run'',
          normalized_word = ascii ''run'', part_of_speech = [],
          definition_text = ascii ''quick'', etymology = [], first_letter = ascii ''r'',
          number_of_letters = 3 \<rparr>;
        e2 = \<lparr> source_file = Some (ascii ''b''), entry_index = 2, word = ascii ''Run'',
          normalized_word = ascii ''run'', part_of_speech = [],
          definition_text = ascii ''hurry'', etymology = [], first_letter = ascii ''r'',
          number_of_letters = 3 \<rparr>;
        st = \<lparr> kept_by_normalized = [(ascii ''run'', e1)], collisions = [] \<rparr>
    in map_of (kept_by_normalized st) (normalized_word e2) = Some e1 \<and>
       length (collisions (dedupe [e1, e2])) = 1 \<and>
       collisions (dedupe [e1, e2]) =
         [\<lparr> c_normalized_word = ascii ''run'', kept_word = ascii ''run'',
            dropped_word = ascii ''Run'', kept_source_file = Some (ascii ''a''),
            dropped_source_file = Some (ascii ''b''), kept_entry_index = ascii ''1'',
            dropped_entry_index = ascii ''2'' \<rparr>] \<and>
       collisions (dedupe_step st e2) = collisions (dedupe [e1, e2]))"
  using one_collision_record_per_collision
    [of "[\<lparr> source_file = Some (ascii ''a''), entry_index = 1, word = ascii ''run'',
          normalized_word = ascii ''run'', part_of_speech = [],
          definition_text = ascii ''quick'', etymology = [], first_letter = ascii ''r'',
          number_of_letters = 3 \<rparr>,
          \<lparr> source_file = Some (ascii ''b''), entry_index = 2, word = ascii ''Run'',
          normalized_word = ascii ''run'', part_of_speech = [],
          definition_text = ascii ''hurry'', etymology = [], first_letter = ascii ''r'',
          number_of_letters = 3 \<rparr>]"
      "\<lparr> kept_by_normalized = [(ascii ''run'',
          \<lparr> source_file = Some (ascii ''a''), entry_index = 1, word = ascii ''run'',
          normalized_word = ascii ''run'', part_of_speech = [],
          definition_text = ascii ''quick'', etymology = [], first_letter = ascii ''r'',
          number_of_letters = 3 \<rparr>)],
        collisions = [] \<rparr>"
      "\<lparr> source_file = Some (ascii ''b''), entry_index = 2, word = ascii ''Run'',
          normalized_word = ascii ''run'', part_of_speech = [],
          definition_text = ascii ''hurry'', etymology = [], first_letter = ascii ''r'',
          number_of_letters = 3 \<rparr>"]
  by (simp add: dedupe_def dedupe_init_def dedupe_step_def pick_better_definition_def
      ascii_def strip_def is_space_def str_int_def Let_def)

text \<open>
  The same count on \<open>main\<close> in dedupe mode: the collision records and the entries written
  together are the input rows whose key is not empty.
\<close>

lemma normalize_main_dedupe_counts:
  assumes "normalize_main py True rows = Inr res"
  shows "\<exists>ws. map (\<lambda>r. get_or_empty r ''word'') rows = map Some ws \<and>
           length (collision_report res) + length (final_entries res) =
             length (filter (\<lambda>w. normalize_word py w \<noteq> []) ws)"
proof -
  from assms obtain st where run: "normalize_rows py norm_init rows = Inr st"
    and res: "res = \<lparr> final_entries = map snd (kept_by_normalized (dedupe (normalized_entries st))),
                      collision_report = collisions (dedupe (normalized_entries st)),
                      n_dropped_empty = dropped_empty st,
                      n_dropped_nonalpha = dropped_nonalpha st \<rparr>"
    by (auto simp: normalize_main_def Let_def split: sum.splits)
  from normalize_rows_inv [OF run]
  obtain ws where ws: "map (\<lambda>r. get_or_empty r ''word'') rows = map Some ws"
    and keys: "map normalized_word (normalized_entries st) =
      filter (\<lambda>k. k \<noteq> []) (map (normalize_word py) ws)"
    by (auto simp: norm_init_def)
  from keys have "length (normalized_entries st) =
      length (filter (\<lambda>k. k \<noteq> []) (map (normalize_word py) ws))"
    by (metis length_map)
  also have "\<dots> = length (filter (\<lambda>w. normalize_word py w \<noteq> []) ws)"
    by (simp add: filter_map comp_def)
  finally have n: "length (normalized_entries st) =
      length (filter (\<lambda>w. normalize_word py w \<noteq> []) ws)" .
  from dedupe_counts [of "normalized_entries st"] n
  have "length (collision_report res) + length (final_entries res) =
      length (filter (\<lambda>w. normalize_word py w \<noteq> []) ws)"
    by (simp add: res)
  with ws show ?thesis by blast
qed

section \<open>The Rank Assigner\<close>

lemma sort_key_row_fst:
  "sort_key_row py r = Inr k \<Longrightarrow> fst k = get_or_empty r ''normalized_word''"
  by (auto simp: sort_key_row_def Let_def split: sum.splits)

lemma sort_key_row_cells:
  assumes "sort_key_row py r = Inr k"
  shows "fst k = get_or_empty r ''normalized_word''"
    and "fst (snd k) = get_or_empty r ''word''"
    and "fst (snd (snd k)) = get_or_empty r ''source_file''"
  using assms by (auto simp: sort_key_row_def Let_def split: sum.splits)

lemma decorate_Inr:
  "decorate py rows = Inr krs \<Longrightarrow>
     map snd krs = rows \<and> (\<forall>kr \<in> set krs. sort_key_row py (snd kr) = Inr (fst kr))"
proof (induction rows arbitrary: krs)
  case Nil
  then show ?case by simp
next
  case (Cons r rs)
  from Cons.prems obtain k krs' where k: "sort_key_row py r = Inr k"
    and d: "decorate py rs = Inr krs'" and e: "krs = (k, r) # krs'"
    by (auto split: sum.splits)
  from Cons.IH [OF d] k e show ?case by simp
qed

lemma decorate_of_pairs:
  "\<forall>kr \<in> set krs. sort_key_row py (snd kr) = Inr (fst kr) \<Longrightarrow>
     decorate py (map snd krs) = Inr krs"
  by (induction krs) auto

lemma decorate_total:
  "\<forall>r \<in> set rows. \<exists>n. int_or_zero py r ''entry_index'' = Inr n \<Longrightarrow>
     \<exists>krs. decorate py rows = Inr krs"
proof (induction rows)
  case Nil
  then show ?case by simp
next
  case (Cons r rs)
  then obtain n krs where "int_or_zero py r ''entry_index'' = Inr n" "decorate py rs = Inr krs"
    by auto
  then show ?case by (simp add: sort_key_row_def Let_def)
qed

lemma length_rank_from: "length (rank_from idx rs) = length rs"
  by (induction rs arbitrary: idx) auto

lemma nth_rank_from:
  "i < length rs \<Longrightarrow> rank_from idx rs ! i = with_lex_rank (rs ! i) (idx + int i)"
proof (induction rs arbitrary: idx i)
  case Nil
  then show ?case by simp
next
  case (Cons r rs)
  show ?case
  proof (cases i)
    case 0
    then show ?thesis by simp
  next
    case (Suc j)
    with Cons.prems have "j < length rs" by simp
    from Cons.IH [OF this, of "idx + 1"] Suc show ?thesis by (simp add: add.assoc)
  qed
qed

lemma lex_rank_of_with: "lex_rank_of (with_lex_rank r idx) = Some idx"
  by (simp add: lex_rank_of_def with_lex_rank_def)

lemma text_of_with:
  "key \<noteq> ''lex_rank'' \<Longrightarrow> text_of (with_lex_rank r idx) key = get_or_empty r key"
  by (simp add: text_of_def with_lex_rank_def get_or_empty_def split: option.splits)

lemma lex_ranks_rank_from:
  "map lex_rank_of (rank_from idx rs) = map Some [idx .. idx + int (length rs) - 1]"
proof (induction rs arbitrary: idx)
  case Nil
  then show ?case by simp
next
  case (Cons r rs)
  have "[idx .. idx + int (length (r # rs)) - 1] = idx # [idx + 1 .. idx + 1 + int (length rs) - 1]"
    by (simp add: upto_rec1)
  with Cons.IH [of "idx + 1"] show ?case
    by (simp add: lex_rank_of_with)
qed

lemma no_incomparable_iff:
  "\<not> list_ex (\<lambda>a. list_ex (\<lambda>b. incomparable a b) ks) ks \<longleftrightarrow>
     (\<forall>a \<in> set ks. \<forall>b \<in> set ks. \<not> incomparable a b)"
  by (auto simp: list_ex_iff)

lemma compute_lex_rank_Inr:
  assumes "compute_lex_rank py rows = Inr out"
  obtains krs where "decorate py rows = Inr krs"
    and "\<forall>a \<in> set krs. \<forall>b \<in> set krs. \<not> incomparable (fst a) (fst b)"
    and "out = rank_from 1 (map snd (sort_key fst krs))"
proof -
  from assms obtain krs where d: "decorate py rows = Inr krs"
    and n: "\<not> list_ex (\<lambda>a. list_ex (\<lambda>b. incomparable a b) (map fst krs)) (map fst krs)"
    and out: "out = rank_from 1 (map snd (sort_key fst krs))"
    by (auto simp: compute_lex_rank_def sorted_rows_def split: sum.splits if_splits)
  from n have "\<forall>a \<in> set krs. \<forall>b \<in> set krs. \<not> incomparable (fst a) (fst b)"
    unfolding no_incomparable_iff by simp
  from that [OF d this out] show thesis .
qed

lemma incomparable_needs_None:
  "incomparable a b \<Longrightarrow>
     fst a = None \<or> fst (snd a) = None \<or> fst (snd (snd a)) = None \<or>
     fst b = None \<or> fst (snd b) = None \<or> fst (snd (snd b)) = None"
  by (cases a; cases b) (auto simp: mixed_def split: if_splits)

text \<open>
  The stage completes whenever every \<open>entry_index\<close> cell is accepted by \<open>int\<close> and no
  cell of a sort key is \<open>None\<close>.
\<close>

lemma compute_lex_rank_total:
  assumes "\<forall>r \<in> set rows. \<exists>n. int_or_zero py r ''entry_index'' = Inr n"
    and "\<forall>r \<in> set rows. get_or_empty r ''normalized_word'' \<noteq> None \<and>
           get_or_empty r ''word'' \<noteq> None \<and> get_or_empty r ''source_file'' \<noteq> None"
  shows "\<exists>out. compute_lex_rank py rows = Inr out"
proof -
  from decorate_total [OF assms(1)] obtain krs where d: "decorate py rows = Inr krs"
    by blast
  have "\<not> incomparable (fst a) (fst b)" if a: "a \<in> set krs" and b: "b \<in> set krs" for a b
  proof -
    from decorate_Inr [OF d] a b
    have ka: "sort_key_row py (snd a) = Inr (fst a)" and ra: "snd a \<in> set rows"
      and kb: "sort_key_row py (snd b) = Inr (fst b)" and rb: "snd b \<in> set rows"
      by auto
    from ra assms(2)
    have "fst (fst a) \<noteq> None \<and> fst (snd (fst a)) \<noteq> None \<and> fst (snd (snd (fst a))) \<noteq> None"
      unfolding sort_key_row_cells [OF ka] by blast
    moreover from rb assms(2)
    have "fst (fst b) \<noteq> None \<and> fst (snd (fst b)) \<noteq> None \<and> fst (snd (snd (fst b))) \<noteq> None"
      unfolding sort_key_row_cells [OF kb] by blast
    ultimately show ?thesis
      using incomparable_needs_None [of "fst a" "fst b"] by auto
  qed
  then have "\<not> list_ex (\<lambda>a. list_ex (\<lambda>b. incomparable a b) (map fst krs)) (map fst krs)"
    unfolding no_incomparable_iff by simp
  with d show ?thesis
    by (simp add: compute_lex_rank_def sorted_rows_def)
qed

text \<open>
  C5. Whenever the Rank Assigner produces an output for a dataset of N rows, the output
  has N rows and their \<open>lex_rank\<close> values are 1, 2, ..., N in output order: no
  duplicates, and as a set exactly \<open>{1, ..., N}\<close>.
\<close>

theorem lex_ranks_contiguous:
  assumes "compute_lex_rank py rows = Inr out"
  shows "length out = length rows \<and>
         map lex_rank_of out = map Some [1 .. int (length rows)] \<and>
         distinct (map lex_rank_of out) \<and>
         set (map lex_rank_of out) = Some ` {1 .. int (length rows)}"
proof -
  from assms obtain krs where d: "decorate py rows = Inr krs"
    and out: "out = rank_from 1 (map snd (sort_key fst krs))"
    by (rule compute_lex_rank_Inr) blast
  from decorate_Inr [OF d] have "length krs = length rows"
    by (metis length_map)
  then have len: "length (map snd (sort_key fst krs)) = length rows"
    by simp
  have ranks: "map lex_rank_of out = map Some [1 .. int (length rows)]"
    unfolding out lex_ranks_rank_from len by simp
  have "distinct (map Some [1 .. int (length rows)])"
    by (simp add: distinct_map)
  with ranks len out show ?thesis
    by (simp add: length_rank_from)
qed

text \<open>
  C6. In every output of the Rank Assigner, a row with a smaller \<open>lex_rank\<close> has a
  \<open>normalized_word\<close> that is less than or equal to that of a row with a larger one, in
  the code-point order of \<open>str\<close> (the byte order of the UTF-8 encodings). The two cells
  are never a \<open>None\<close> and a \<open>str\<close>: they are two strings, or \<open>None\<close> both. Nothing is
  assumed about duplicate keys, so both dedupe modes are covered.
\<close>

theorem lex_rank_monotone_in_key:
  assumes "compute_lex_rank py rows = Inr out"
  shows "\<forall>a \<in> set out. \<forall>b \<in> set out. \<forall>ra rb.
           lex_rank_of a = Some ra \<longrightarrow> lex_rank_of b = Some rb \<longrightarrow> ra < rb \<longrightarrow>
           text_of a ''normalized_word'' \<le> text_of b ''normalized_word'' \<and>
           \<not> mixed (text_of a ''normalized_word'') (text_of b ''normalized_word'')"
proof (intro ballI allI impI)
  fix a b ra rb
  assume a: "a \<in> set out" and b: "b \<in> set out"
    and ra: "lex_rank_of a = Some ra" and rb: "lex_rank_of b = Some rb" and lt: "ra < rb"
  from assms obtain krs where d: "decorate py rows = Inr krs"
    and cmp: "\<forall>a \<in> set krs. \<forall>b \<in> set krs. \<not> incomparable (fst a) (fst b)"
    and out: "out = rank_from 1 (map snd (sort_key fst krs))"
    by (rule compute_lex_rank_Inr)
  define ks where "ks = sort_key fst krs"
  have keyed: "\<forall>kr \<in> set ks. sort_key_row py (snd kr) = Inr (fst kr)"
    using decorate_Inr [OF d] by (simp add: ks_def)
  have srt: "sorted (map fst ks)"
    unfolding ks_def by (rule sorted_sort_key)
  have len: "length out = length ks"
    by (simp add: out length_rank_from ks_def)
  from a obtain i where i: "i < length ks" and ai: "a = out ! i"
    by (metis in_set_conv_nth len)
  from b obtain j where j: "j < length ks" and bj: "b = out ! j"
    by (metis in_set_conv_nth len)
  have a_eq: "a = with_lex_rank (snd (ks ! i)) (1 + int i)"
    using i by (simp add: ai out nth_rank_from ks_def)
  have b_eq: "b = with_lex_rank (snd (ks ! j)) (1 + int j)"
    using j by (simp add: bj out nth_rank_from ks_def)
  from ra rb lt have "i < j"
    by (simp add: a_eq b_eq lex_rank_of_with)
  with srt j have "map fst ks ! i \<le> map fst ks ! j"
    by (simp add: sorted_iff_nth_mono)
  with i j have le: "fst (ks ! i) \<le> fst (ks ! j)"
    by simp
  then have le1: "fst (fst (ks ! i)) \<le> fst (fst (ks ! j))"
    by (auto simp: less_eq_prod_def)
  have "set ks = set krs"
    by (simp add: ks_def)
  with i j have "ks ! i \<in> set krs" and "ks ! j \<in> set krs"
    by (metis nth_mem)+
  with cmp have "\<not> incomparable (fst (ks ! i)) (fst (ks ! j))"
    by blast
  then have nm: "\<not> mixed (fst (fst (ks ! i))) (fst (fst (ks ! j)))"
    by (cases "fst (ks ! i)"; cases "fst (ks ! j)") (auto simp: mixed_def split: if_splits)
  from keyed i have "sort_key_row py (snd (ks ! i)) = Inr (fst (ks ! i))"
    by simp
  then have ki: "fst (fst (ks ! i)) = get_or_empty (snd (ks ! i)) ''normalized_word''"
    by (rule sort_key_row_fst)
  from keyed j have "sort_key_row py (snd (ks ! j)) = Inr (fst (ks ! j))"
    by simp
  then have kj: "fst (fst (ks ! j)) = get_or_empty (snd (ks ! j)) ''normalized_word''"
    by (rule sort_key_row_fst)
  from le1 nm ki kj
  show "text_of a ''normalized_word'' \<le> text_of b ''normalized_word'' \<and>
      \<not> mixed (text_of a ''normalized_word'') (text_of b ''normalized_word'')"
    by (simp add: a_eq b_eq text_of_with)
qed

lemma strip_rank_with: "strip_rank (with_lex_rank r idx) = r(''lex_rank'' := None)"
  by (auto simp: strip_rank_def with_lex_rank_def fun_eq_iff split: option.splits)

lemma with_lex_rank_forget: "with_lex_rank (r(''lex_rank'' := None)) idx = with_lex_rank r idx"
  by (auto simp: with_lex_rank_def fun_eq_iff)

lemma sort_key_row_forget: "sort_key_row py (r(''lex_rank'' := None)) = sort_key_row py r"
  by (simp add: sort_key_row_def int_or_zero_def get_or_empty_def)

lemma strip_rank_rank_from:
  "map strip_rank (rank_from idx rs) = map (\<lambda>r. r(''lex_rank'' := None)) rs"
  by (induction rs arbitrary: idx) (auto simp: strip_rank_with)

lemma rank_from_forget:
  "rank_from idx (map (\<lambda>r. r(''lex_rank'' := None)) rs) = rank_from idx rs"
  by (induction rs arbitrary: idx) (auto simp: with_lex_rank_forget)

lemma sort_key_row_reread:
  assumes "sort_key_row py r = Inr k"
  shows "sort_key_row py (reread_without_rank (with_lex_rank r idx)) = Inr (written_key k)"
proof -
  have w: "written (with_lex_rank r idx key) =
      (case get_or_empty r key of None \<Rightarrow> [] | Some s \<Rightarrow> s)" if "key \<noteq> ''lex_rank''" for key
    using that by (simp add: written_def with_lex_rank_def get_or_empty_def split: option.splits)
  have i: "int_or_zero py (reread_without_rank (with_lex_rank r idx)) ''entry_index'' =
      int_or_zero py r ''entry_index''"
    by (simp add: int_or_zero_def reread_without_rank_def fieldnames_def written_def
        with_lex_rank_def split: option.splits)
  from assms i show ?thesis
    by (auto simp: sort_key_row_def Let_def written_key_def reread_without_rank_def
        fieldnames_def w get_or_empty_def split: sum.splits)
qed

lemma written_key_comparable: "\<not> incomparable (written_key a) (written_key b)"
  by (cases a; cases b) (simp add: written_key_def mixed_def)

lemma written_cell_less:
  fixes x y :: cell
  assumes "x \<le> y" and "x \<noteq> y" and "\<not> mixed x y"
  shows "Some (case x of None \<Rightarrow> [] | Some s \<Rightarrow> s) < Some (case y of None \<Rightarrow> [] | Some s \<Rightarrow> s)"
  using assms by (cases x; cases y) (auto simp: mixed_def)

lemma written_key_mono:
  assumes "a \<le> b" and "\<not> incomparable a b"
  shows "written_key a \<le> written_key b"
proof -
  obtain a1 a2 a3 ai where a: "a = (a1, a2, a3, ai)" by (cases a)
  obtain b1 b2 b3 bi where b: "b = (b1, b2, b3, bi)" by (cases b)
  consider (first) "a1 \<noteq> b1" | (second) "a1 = b1" "a2 \<noteq> b2"
    | (third) "a1 = b1" "a2 = b2" "a3 \<noteq> b3" | (last) "a1 = b1" "a2 = b2" "a3 = b3"
    by blast
  then show ?thesis
  proof cases
    case first
    with assms have "a1 \<le> b1" and "\<not> mixed a1 b1"
      by (auto simp: a b less_eq_prod_def)
    from written_cell_less [OF this(1) first this(2)] show ?thesis
      by (simp add: a b written_key_def less_eq_prod_def)
  next
    case second
    with assms have "a2 \<le> b2" and "\<not> mixed a2 b2"
      by (auto simp: a b less_eq_prod_def)
    from written_cell_less [OF this(1) second(2) this(2)] second(1) show ?thesis
      by (simp add: a b written_key_def less_eq_prod_def)
  next
    case third
    with assms have "a3 \<le> b3" and "\<not> mixed a3 b3"
      by (auto simp: a b less_eq_prod_def)
    from written_cell_less [OF this(1) third(3) this(2)] third(1,2) show ?thesis
      by (simp add: a b written_key_def less_eq_prod_def)
  next
    case last
    with assms have "ai \<le> bi"
      by (auto simp: a b less_eq_prod_def)
    with last show ?thesis
      by (simp add: a b written_key_def less_eq_prod_def)
  qed
qed

lemma reread_forget:
  "(reread_without_rank rr)(''lex_rank'' := None) = reread_without_rank rr"
  by (auto simp: reread_without_rank_def fun_eq_iff)

text \<open>
  C7. Running the Rank Assigner on its own output, with the \<open>lex_rank\<close> cells taken
  away, completes and returns the same ranked rows: every row keeps its \<open>lex_rank\<close>.
  The same holds of the rows as they are read back from the written file (where a
  \<open>None\<close> cell has become an empty string): the second run completes, and its row at
  every position is the row of the first output at that position, with the same
  \<open>lex_rank\<close>.
\<close>

theorem compute_lex_rank_idempotent:
  assumes "compute_lex_rank py rows = Inr out"
  shows "compute_lex_rank py (map strip_rank out) = Inr out \<and>
         (\<exists>out'. compute_lex_rank py (map reread_without_rank out) = Inr out' \<and>
            map lex_rank_of out' = map lex_rank_of out \<and>
            map strip_rank out' = map reread_without_rank out)"
proof
  from assms obtain krs where d: "decorate py rows = Inr krs"
    and cmp: "\<forall>a \<in> set krs. \<forall>b \<in> set krs. \<not> incomparable (fst a) (fst b)"
    and out: "out = rank_from 1 (map snd (sort_key fst krs))"
    by (rule compute_lex_rank_Inr)
  define ks where "ks = sort_key fst krs"
  have keyed: "\<forall>kr \<in> set ks. sort_key_row py (snd kr) = Inr (fst kr)"
    using decorate_Inr [OF d] by (simp add: ks_def)
  have cmp_ks: "\<forall>a \<in> set ks. \<forall>b \<in> set ks. \<not> incomparable (fst a) (fst b)"
    using cmp by (simp add: ks_def)
  have srt: "sorted (map fst ks)"
    unfolding ks_def by (rule sorted_sort_key)
  show "compute_lex_rank py (map strip_rank out) = Inr out"
  proof -
    define forget :: "row \<Rightarrow> row" where "forget = (\<lambda>r. r(''lex_rank'' := None))"
    define ks' where "ks' = map (\<lambda>kr. (fst kr, forget (snd kr))) ks"
    from keyed have keyed': "\<forall>kr \<in> set ks'. sort_key_row py (snd kr) = Inr (fst kr)"
      by (auto simp: ks'_def forget_def sort_key_row_forget)
    have rows': "map strip_rank out = map snd ks'"
      by (simp add: out strip_rank_rank_from ks_def ks'_def forget_def comp_def)
    have dec: "decorate py (map strip_rank out) = Inr ks'"
      unfolding rows' by (rule decorate_of_pairs [OF keyed'])
    have fst': "map fst ks' = map fst ks"
      by (simp add: ks'_def comp_def)
    from cmp_ks have "\<forall>a \<in> set (map fst ks). \<forall>b \<in> set (map fst ks). \<not> incomparable a b"
      by auto
    then have ok: "\<not> list_ex (\<lambda>a. list_ex (\<lambda>b. incomparable a b) (map fst ks')) (map fst ks')"
      unfolding fst' no_incomparable_iff .
    from fst' srt have "sort_key fst ks' = ks'"
      by (simp add: sort_key_id_if_sorted)
    with dec ok
    have "compute_lex_rank py (map strip_rank out) = Inr (rank_from 1 (map snd ks'))"
      by (simp add: compute_lex_rank_def sorted_rows_def)
    also have "map snd ks' = map forget (map snd ks)"
      by (simp add: ks'_def comp_def)
    also have "rank_from 1 (map forget (map snd ks)) = out"
      unfolding forget_def rank_from_forget by (simp add: out ks_def)
    finally show ?thesis .
  qed
  show "\<exists>out'. compute_lex_rank py (map reread_without_rank out) = Inr out' \<and>
            map lex_rank_of out' = map lex_rank_of out \<and>
            map strip_rank out' = map reread_without_rank out"
  proof -
    define rows' where "rows' = map reread_without_rank out"
    define ks' where "ks' = zip (map (written_key \<circ> fst) ks) rows'"
    have len: "length rows' = length ks"
      by (simp add: rows'_def out length_rank_from ks_def)
    have fst': "map fst ks' = map (written_key \<circ> fst) ks"
      by (simp add: ks'_def len)
    have snd': "map snd ks' = rows'"
      by (simp add: ks'_def len)
    have keyed': "\<forall>kr \<in> set ks'. sort_key_row py (snd kr) = Inr (fst kr)"
    proof
      fix kr assume "kr \<in> set ks'"
      then obtain i where i: "i < length ks" and kr: "kr = ks' ! i"
        by (metis in_set_conv_nth ks'_def len length_map length_zip min.idem)
      from i have r: "rows' ! i = reread_without_rank (with_lex_rank (snd (ks ! i)) (1 + int i))"
        by (simp add: rows'_def out length_rank_from nth_rank_from ks_def)
      from keyed i have "sort_key_row py (snd (ks ! i)) = Inr (fst (ks ! i))"
        by simp
      from sort_key_row_reread [OF this, of "1 + int i"] r i len
      show "sort_key_row py (snd kr) = Inr (fst kr)"
        by (simp add: kr ks'_def)
    qed
    have dec: "decorate py rows' = Inr ks'"
      using decorate_of_pairs [OF keyed'] by (simp add: snd')
    have ok: "\<not> list_ex (\<lambda>a. list_ex (\<lambda>b. incomparable a b) (map fst ks')) (map fst ks')"
      unfolding no_incomparable_iff fst' by (auto simp: written_key_comparable)
    have "sorted_wrt (\<lambda>x y. fst x \<le> fst y) ks"
      using srt by (simp add: sorted_map)
    then have "sorted_wrt (\<lambda>x y. written_key (fst x) \<le> written_key (fst y)) ks"
      by (rule sorted_wrt_mono_rel [rotated]) (use cmp_ks in \<open>auto intro: written_key_mono\<close>)
    then have "sorted (map fst ks')"
      by (simp add: fst' sorted_map comp_def)
    then have "sort_key fst ks' = ks'"
      by (rule sort_key_id_if_sorted)
    with dec ok have run: "compute_lex_rank py rows' = Inr (rank_from 1 rows')"
      by (simp add: compute_lex_rank_def sorted_rows_def snd')
    have ranks: "map lex_rank_of (rank_from 1 rows') = map lex_rank_of out"
      by (simp add: lex_ranks_rank_from out len length_rank_from ks_def [symmetric])
    have "map strip_rank (rank_from 1 rows') = rows'"
      by (simp add: strip_rank_rank_from rows'_def reread_forget)
    with run ranks show ?thesis
      unfolding rows'_def by blast
  qed
qed

text \<open>
  A run on two rows given in the order \<open>b\<close>, \<open>a\<close> (the other cells missing, so the
  \<open>entry_index\<close> is read as 0).
\<close>

lemma int_or_zero_missing_cpython:
  "r key = None \<Longrightarrow> int_or_zero cpython_latin1 r key = Inr 0"
  by (simp add: int_or_zero_def ascii_def cpython_int_str int_ascii_digit)

lemma rank_example_run:
  "compute_lex_rank cpython_latin1
     [[''normalized_word'' \<mapsto> Some [98]], [''normalized_word'' \<mapsto> Some [97]]] =
     Inr [with_lex_rank [''normalized_word'' \<mapsto> Some [97]] 1,
          with_lex_rank [''normalized_word'' \<mapsto> Some [98]] 2]"
  by (simp add: compute_lex_rank_def sorted_rows_def sort_key_row_def get_or_empty_def
      int_or_zero_missing_cpython mixed_def)

theorem lex_ranks_contiguous_witness:
  "compute_lex_rank cpython_latin1
     [[''normalized_word'' \<mapsto> Some [98]], [''normalized_word'' \<mapsto> Some [97]]] =
     Inr [with_lex_rank [''normalized_word'' \<mapsto> Some [97]] 1,
          with_lex_rank [''normalized_word'' \<mapsto> Some [98]] 2] \<and>
   map lex_rank_of [with_lex_rank [''normalized_word'' \<mapsto> Some [97]] 1,
                    with_lex_rank [''normalized_word'' \<mapsto> Some [98]] 2] = [Some 1, Some 2]"
  using lex_ranks_contiguous [OF rank_example_run] rank_example_run
  by (simp add: upto.simps)

theorem lex_rank_monotone_in_key_witness:
  "compute_lex_rank cpython_latin1
     [[''normalized_word'' \<mapsto> Some [98]], [''normalized_word'' \<mapsto> Some [97]]] =
     Inr [with_lex_rank [''normalized_word'' \<mapsto> Some [97]] 1,
          with_lex_rank [''normalized_word'' \<mapsto> Some [98]] 2] \<and>
   lex_rank_of (with_lex_rank [''normalized_word'' \<mapsto> Some [97]] 1) = Some 1 \<and>
   lex_rank_of (with_lex_rank [''normalized_word'' \<mapsto> Some [98]] 2) = Some 2 \<and>
   text_of (with_lex_rank [''normalized_word'' \<mapsto> Some [97]] 1) ''normalized_word'' \<le>
     text_of (with_lex_rank [''normalized_word'' \<mapsto> Some [98]] 2) ''normalized_word''"
  using lex_rank_monotone_in_key [OF rank_example_run] rank_example_run
  by (simp add: lex_rank_of_with)

theorem compute_lex_rank_idempotent_witness:
  "compute_lex_rank cpython_latin1
     [[''normalized_word'' \<mapsto> Some [98]], [''normalized_word'' \<mapsto> Some [97]]] =
     Inr [with_lex_rank [''normalized_word'' \<mapsto> Some [97]] 1,
          with_lex_rank [''normalized_word'' \<mapsto> Some [98]] 2] \<and>
   compute_lex_rank cpython_latin1
     (map strip_rank [with_lex_rank [''normalized_word'' \<mapsto> Some [97]] 1,
                      with_lex_rank [''normalized_word'' \<mapsto> Some [98]] 2]) =
     Inr [with_lex_rank [''normalized_word'' \<mapsto> Some [97]] 1,
          with_lex_rank [''normalized_word'' \<mapsto> Some [98]] 2] \<and>
   (\<exists>out'. compute_lex_rank cpython_latin1
      (map reread_without_rank [with_lex_rank [''normalized_word'' \<mapsto> Some [97]] 1,
                                with_lex_rank [''normalized_word'' \<mapsto> Some [98]] 2]) =
        Inr out' \<and>
      map lex_rank_of out' = [Some 1, Some 2])"
  using compute_lex_rank_idempotent [OF rank_example_run] rank_example_run
  by (auto simp: lex_rank_of_with)

section \<open>Malformed numeric cells\<close>

lemma int_or_zero_cases:
  "int_or_zero py r key =
     (case r key of
        Some (Some s) \<Rightarrow>
          if s = [] then (case int_str py (ascii ''0'') of None \<Rightarrow> Inl ValueError | Some n \<Rightarrow> Inr n)
          else (case int_str py s of None \<Rightarrow> Inl ValueError | Some n \<Rightarrow> Inr n)
      | _ \<Rightarrow> (case int_str py (ascii ''0'') of None \<Rightarrow> Inl ValueError | Some n \<Rightarrow> Inr n))"
  by (simp add: int_or_zero_def split: option.splits)

text \<open>
  What the Normalizer does with a row whose \<open>entry_index\<close> was read as \<open>n\<close>: it never
  raises \<open>ValueError\<close>; it raises \<open>TypeError\<close> exactly when the word cell is \<open>None\<close>, or the
  row is kept and its \<open>part_of_speech\<close> or \<open>definition\<close> cell is \<open>None\<close>; an entry it
  appends has the index \<open>n\<close>.
\<close>

lemma normalize_row_entry_index:
  assumes "int_or_zero py r ''entry_index'' = Inr n"
  shows "normalize_row py st r \<noteq> Inl ValueError"
    and "normalize_row py st r = Inl TypeError \<longleftrightarrow>
           get_or_empty r ''word'' = None \<or>
           (\<exists>w. get_or_empty r ''word'' = Some w \<and> normalize_word py w \<noteq> [] \<and>
                (get_or_empty r ''part_of_speech'' = None \<or>
                 get_or_empty r ''definition'' = None))"
    and "normalize_row py st r = Inr st' \<Longrightarrow>
           normalized_entries st' = normalized_entries st \<or>
           (\<exists>e. normalized_entries st' = normalized_entries st @ [e] \<and> entry_index e = n)"
proof -
  have "normalize_row py st r \<noteq> Inl ValueError \<and>
      (normalize_row py st r = Inl TypeError \<longleftrightarrow>
           get_or_empty r ''word'' = None \<or>
           (\<exists>w. get_or_empty r ''word'' = Some w \<and> normalize_word py w \<noteq> [] \<and>
                (get_or_empty r ''part_of_speech'' = None \<or>
                 get_or_empty r ''definition'' = None))) \<and>
      (normalize_row py st r = Inr st' \<longrightarrow>
           normalized_entries st' = normalized_entries st \<or>
           (\<exists>e. normalized_entries st' = normalized_entries st @ [e] \<and> entry_index e = n))"
  proof (cases "get_or_empty r ''word''")
    case None
    with assms show ?thesis by (simp add: normalize_row_def)
  next
    case (Some w)
    show ?thesis
    proof (cases "normalize_word py w")
      case Nil
      with assms Some show ?thesis by (auto simp: normalize_row_def)
    next
      case (Cons c cs)
      from normalize_word_no_nonalpha [of py w] Cons
      have nn: "\<not> list_ex (\<lambda>ch. ch < 97 \<or> ch > 122) (c # cs)"
        by simp
      show ?thesis
      proof (cases "get_or_empty r ''part_of_speech''")
        case None
        with assms Some Cons nn show ?thesis
          by (simp add: normalize_row_def)
      next
        case p: (Some p)
        show ?thesis
        proof (cases "get_or_empty r ''definition''")
          case None
          with assms Some Cons nn p show ?thesis
            by (simp add: normalize_row_def)
        next
          case d: (Some d)
          with assms Some Cons nn p show ?thesis
            by (auto simp: normalize_row_def)
        qed
      qed
    qed
  qed
  then show "normalize_row py st r \<noteq> Inl ValueError"
    and "normalize_row py st r = Inl TypeError \<longleftrightarrow>
           get_or_empty r ''word'' = None \<or>
           (\<exists>w. get_or_empty r ''word'' = Some w \<and> normalize_word py w \<noteq> [] \<and>
                (get_or_empty r ''part_of_speech'' = None \<or>
                 get_or_empty r ''definition'' = None))"
    and "normalize_row py st r = Inr st' \<Longrightarrow>
           normalized_entries st' = normalized_entries st \<or>
           (\<exists>e. normalized_entries st' = normalized_entries st @ [e] \<and> entry_index e = n)"
    by blast+
qed

lemma normalize_rows_total:
  assumes "\<forall>r \<in> set rows. (\<exists>n. int_or_zero py r ''entry_index'' = Inr n) \<and>
             get_or_empty r ''word'' \<noteq> None \<and> get_or_empty r ''part_of_speech'' \<noteq> None \<and>
             get_or_empty r ''definition'' \<noteq> None"
  shows "\<exists>st'. normalize_rows py st rows = Inr st'"
  using assms
proof (induction rows arbitrary: st)
  case Nil
  then show ?case by simp
next
  case (Cons r rs)
  then obtain n where n: "int_or_zero py r ''entry_index'' = Inr n"
    by auto
  from Cons.prems have "normalize_row py st r \<noteq> Inl TypeError"
    unfolding normalize_row_entry_index(2) [OF n] by auto
  with normalize_row_entry_index(1) [OF n, of st]
  obtain st1 where "normalize_row py st r = Inr st1"
    by (cases "normalize_row py st r") (auto intro: error.exhaust)
  with Cons.IH [of st1] Cons.prems show ?case by simp
qed

text \<open>
  C2 (as the code has it). Both stages read the cell with \<open>int(row.get("entry_index") or
  "0")\<close>. With an \<open>int\<close> that reads \<open>"0"\<close> as 0: a row whose \<open>entry_index\<close> is absent,
  \<open>None\<close> or the empty string is read as 0 by both stages, neither of which fails on this
  cell: the key function of the Rank Assigner returns a key with index 0, and the
  Normalizer goes on with the row as with any other, so that an entry it appends has the
  index 0, and it raises only the \<open>TypeError\<close> of a \<open>None\<close> word, \<open>part_of_speech\<close> or
  \<open>definition\<close> cell. A row whose \<open>entry_index\<close> is a non-empty string is read as \<open>int\<close>
  reads it, and when \<open>int\<close> rejects it both stages end with \<open>ValueError\<close>.
\<close>

theorem entry_index_missing_or_empty_is_zero:
  assumes "int_str py (ascii ''0'') = Some 0"
  shows "((r ''entry_index'' = None \<or> r ''entry_index'' = Some None \<or>
           r ''entry_index'' = Some (Some [])) \<longrightarrow>
            int_or_zero py r ''entry_index'' = Inr 0 \<and>
            sort_key_row py r =
              Inr (get_or_empty r ''normalized_word'', get_or_empty r ''word'',
                   get_or_empty r ''source_file'', 0) \<and>
            normalize_row py st r \<noteq> Inl ValueError \<and>
            (normalize_row py st r = Inl TypeError \<longleftrightarrow>
               get_or_empty r ''word'' = None \<or>
               (\<exists>w. get_or_empty r ''word'' = Some w \<and> normalize_word py w \<noteq> [] \<and>
                    (get_or_empty r ''part_of_speech'' = None \<or>
                     get_or_empty r ''definition'' = None))) \<and>
            (\<forall>st'. normalize_row py st r = Inr st' \<longrightarrow>
               normalized_entries st' = normalized_entries st \<or>
               (\<exists>e. normalized_entries st' = normalized_entries st @ [e] \<and> entry_index e = 0))) \<and>
         (\<forall>s. r ''entry_index'' = Some (Some s) \<and> s \<noteq> [] \<longrightarrow>
            (int_str py s = None \<longrightarrow>
               sort_key_row py r = Inl ValueError \<and> normalize_row py st r = Inl ValueError) \<and>
            (\<forall>n. int_str py s = Some n \<longrightarrow>
               sort_key_row py r =
                 Inr (get_or_empty r ''normalized_word'', get_or_empty r ''word'',
                      get_or_empty r ''source_file'', n) \<and>
               normalize_row py st r \<noteq> Inl ValueError \<and>
               (\<forall>st'. normalize_row py st r = Inr st' \<longrightarrow>
                  normalized_entries st' = normalized_entries st \<or>
                  (\<exists>e. normalized_entries st' = normalized_entries st @ [e] \<and>
                       entry_index e = n))))"
proof (intro conjI impI allI)
  assume "r ''entry_index'' = None \<or> r ''entry_index'' = Some None \<or>
      r ''entry_index'' = Some (Some [])"
  with assms show z: "int_or_zero py r ''entry_index'' = Inr 0"
    by (auto simp: int_or_zero_cases)
  then show "sort_key_row py r =
      Inr (get_or_empty r ''normalized_word'', get_or_empty r ''word'',
           get_or_empty r ''source_file'', 0)"
    by (simp add: sort_key_row_def)
  show "normalize_row py st r \<noteq> Inl ValueError"
    by (rule normalize_row_entry_index(1) [OF z])
  show "normalize_row py st r = Inl TypeError \<longleftrightarrow>
      get_or_empty r ''word'' = None \<or>
      (\<exists>w. get_or_empty r ''word'' = Some w \<and> normalize_word py w \<noteq> [] \<and>
           (get_or_empty r ''part_of_speech'' = None \<or> get_or_empty r ''definition'' = None))"
    by (rule normalize_row_entry_index(2) [OF z])
  fix st'
  assume "normalize_row py st r = Inr st'"
  then show "normalized_entries st' = normalized_entries st \<or>
      (\<exists>e. normalized_entries st' = normalized_entries st @ [e] \<and> entry_index e = 0)"
    by (rule normalize_row_entry_index(3) [OF z])
next
  fix s
  assume s: "r ''entry_index'' = Some (Some s) \<and> s \<noteq> []" and bad: "int_str py s = None"
  then have e: "int_or_zero py r ''entry_index'' = Inl ValueError"
    by (simp add: int_or_zero_cases)
  then show "sort_key_row py r = Inl ValueError"
    by (simp add: sort_key_row_def)
  from e show "normalize_row py st r = Inl ValueError"
    by (simp add: normalize_row_def)
next
  fix s n
  assume s: "r ''entry_index'' = Some (Some s) \<and> s \<noteq> []" and ok: "int_str py s = Some n"
  then have z: "int_or_zero py r ''entry_index'' = Inr n"
    by (simp add: int_or_zero_cases)
  then show "sort_key_row py r =
      Inr (get_or_empty r ''normalized_word'', get_or_empty r ''word'',
           get_or_empty r ''source_file'', n)"
    by (simp add: sort_key_row_def)
  show "normalize_row py st r \<noteq> Inl ValueError"
    by (rule normalize_row_entry_index(1) [OF z])
  fix st'
  assume "normalize_row py st r = Inr st'"
  then show "normalized_entries st' = normalized_entries st \<or>
      (\<exists>e. normalized_entries st' = normalized_entries st @ [e] \<and> entry_index e = n)"
    by (rule normalize_row_entry_index(3) [OF z])
qed

lemma int_ascii_x: "int_ascii [120] = None"
  by (simp add: int_ascii_def int_blank_def)

lemma key_of_a: "normalize_word cpython_latin1 [97] = [97]"
proof -
  have "str_lower cpython_latin1 (clean_whitespace [97]) = [97]"
    by (simp add: cpython_latin1_def clean_whitespace_def strip_def is_space_def lower_latin1_def)
  moreover have "nfkd cpython_latin1 [97] = [97]"
    by (simp add: cpython_latin1_def nfkd_latin1_below_160)
  ultimately show ?thesis
    by (simp add: normalize_word_def)
qed

text \<open>
  A row with an empty \<open>entry_index\<close> is keyed with index 0 and normalized with index 0; a
  row whose \<open>entry_index\<close> is \<open>x\<close> ends the key function with \<open>ValueError\<close>; and in a row
  cut short after its \<open>source_file\<close>, the \<open>None\<close> in the \<open>entry_index\<close> cell is read as
  0 and the \<open>None\<close> in the word cell raises \<open>TypeError\<close>.
\<close>

theorem entry_index_missing_or_empty_is_zero_witness:
  "int_str cpython_latin1 (ascii ''0'') = Some 0 \<and>
   sort_key_row cpython_latin1 [''normalized_word'' \<mapsto> Some [97], ''entry_index'' \<mapsto> Some []] =
     Inr (Some [97], Some [], Some [], 0) \<and>
   normalize_row cpython_latin1 norm_init [''word'' \<mapsto> Some [97], ''entry_index'' \<mapsto> Some []] =
     Inr \<lparr> normalized_entries =
             [\<lparr> source_file = Some [], entry_index = 0, word = [97], normalized_word = [97],
                part_of_speech = [], definition_text = [], etymology = [],
                first_letter = [97], number_of_letters = 1 \<rparr>],
           dropped_empty = 0, dropped_nonalpha = 0 \<rparr> \<and>
   sort_key_row cpython_latin1 [''normalized_word'' \<mapsto> Some [97], ''entry_index'' \<mapsto> Some [120]] =
     Inl ValueError \<and>
   int_or_zero cpython_latin1
     [''source_file'' \<mapsto> Some [115], ''entry_index'' \<mapsto> None, ''word'' \<mapsto> None,
      ''part_of_speech'' \<mapsto> None, ''definition'' \<mapsto> None] ''entry_index'' = Inr 0 \<and>
   normalize_row cpython_latin1 norm_init
     [''source_file'' \<mapsto> Some [115], ''entry_index'' \<mapsto> None, ''word'' \<mapsto> None,
      ''part_of_speech'' \<mapsto> None, ''definition'' \<mapsto> None] = Inl TypeError"
proof -
  have z: "int_str cpython_latin1 (ascii ''0'') = Some 0"
    by (simp add: cpython_int_str ascii_def int_ascii_digit)
  from entry_index_missing_or_empty_is_zero
    [OF z, of "[''normalized_word'' \<mapsto> Some [97], ''entry_index'' \<mapsto> Some []]" norm_init]
  have a: "sort_key_row cpython_latin1
      [''normalized_word'' \<mapsto> Some [97], ''entry_index'' \<mapsto> Some []] =
     Inr (Some [97], Some [], Some [], 0)"
    by (simp add: get_or_empty_def)
  have b: "normalize_row cpython_latin1 norm_init
      [''word'' \<mapsto> Some [97], ''entry_index'' \<mapsto> Some []] =
     Inr \<lparr> normalized_entries =
             [\<lparr> source_file = Some [], entry_index = 0, word = [97], normalized_word = [97],
                part_of_speech = [], definition_text = [], etymology = [],
                first_letter = [97], number_of_letters = 1 \<rparr>],
           dropped_empty = 0, dropped_nonalpha = 0 \<rparr>"
    by (simp add: normalize_row_def int_or_zero_def get_or_empty_def key_of_a norm_init_def
        ascii_def cpython_int_str int_ascii_digit clean_whitespace_def strip_def is_space_def
        Let_def)
  from entry_index_missing_or_empty_is_zero
    [OF z, of "[''normalized_word'' \<mapsto> Some [97], ''entry_index'' \<mapsto> Some [120]]" norm_init]
  have c: "sort_key_row cpython_latin1
      [''normalized_word'' \<mapsto> Some [97], ''entry_index'' \<mapsto> Some [120]] = Inl ValueError"
    by (simp add: cpython_int_str int_ascii_x)
  from entry_index_missing_or_empty_is_zero
    [OF z, of "[''source_file'' \<mapsto> Some [115], ''entry_index'' \<mapsto> None, ''word'' \<mapsto> None,
      ''part_of_speech'' \<mapsto> None, ''definition'' \<mapsto> None]" norm_init]
  have d: "int_or_zero cpython_latin1
     [''source_file'' \<mapsto> Some [115], ''entry_index'' \<mapsto> None, ''word'' \<mapsto> None,
      ''part_of_speech'' \<mapsto> None, ''definition'' \<mapsto> None] ''entry_index'' = Inr 0"
    and e: "normalize_row cpython_latin1 norm_init
     [''source_file'' \<mapsto> Some [115], ''entry_index'' \<mapsto> None, ''word'' \<mapsto> None,
      ''part_of_speech'' \<mapsto> None, ''definition'' \<mapsto> None] = Inl TypeError"
    by (simp_all add: get_or_empty_def)
  from z a b c d e show ?thesis by simp
qed

text \<open>
  A row whose \<open>entry_index\<close> is \<open>x\<close> is not read as 0: the Normalizer's loop and the
  Rank Assigner both end with \<open>ValueError\<close> on it.
\<close>

theorem malformed_entry_index_counterexample:
  "normalize_rows cpython_latin1 norm_init
     [[''word'' \<mapsto> Some [97], ''entry_index'' \<mapsto> Some [120]]] = Inl ValueError \<and>
   normalize_main cpython_latin1 True
     [[''word'' \<mapsto> Some [97], ''entry_index'' \<mapsto> Some [120]]] = Inl ValueError \<and>
   compute_lex_rank cpython_latin1
     [[''normalized_word'' \<mapsto> Some [97], ''entry_index'' \<mapsto> Some [120]]] = Inl ValueError"
  by (simp add: normalize_main_def normalize_row_def compute_lex_rank_def sorted_rows_def
      sort_key_row_def int_or_zero_def cpython_int_str int_ascii_x)

text \<open>
  The Rank Assigner on a file whose second line is cut short after \<open>source_file\<close>: the
  keys \<open>("a", "", "s", 0)\<close> and \<open>(None, None, "s", 0)\<close> cannot be compared.
\<close>

lemma short_row_rank_TypeError:
  "compute_lex_rank cpython_latin1
     [[''source_file'' \<mapsto> Some [115], ''entry_index'' \<mapsto> Some [], ''word'' \<mapsto> Some [],
       ''normalized_word'' \<mapsto> Some [97]],
      [''source_file'' \<mapsto> Some [115], ''entry_index'' \<mapsto> None, ''word'' \<mapsto> None,
       ''normalized_word'' \<mapsto> None]] = Inl TypeError"
  by (simp add: compute_lex_rank_def sorted_rows_def sort_key_row_def get_or_empty_def
      int_or_zero_def ascii_def cpython_int_str int_ascii_digit mixed_def)

section \<open>The Invariant Verifier\<close>

lemma check_row_Inr:
  assumes "check_row py st idx r = Inr st1"
  obtains c where "read_row py r = Inr c"
    and "seen_ranks st1 = insert (c_lex_rank c) (seen_ranks st)"
    and "last_word st1 = (if c_normalized c \<noteq> [] then Some (c_normalized c) else last_word st)"
    and "list_ex is_ordering_violation (errors st1) \<longleftrightarrow>
           list_ex is_ordering_violation (errors st) \<or>
           (c_normalized c \<noteq> [] \<and> (\<exists>lw. last_word st = Some lw \<and> c_normalized c < lw))"
    and "errors st1 = [] \<longleftrightarrow>
           errors st = [] \<and> c_normalized c \<noteq> [] \<and>
           list_all (\<lambda>ch. 97 \<le> ch \<and> ch \<le> 122) (c_normalized c) \<and>
           c_first_letter c = take 1 (c_normalized c) \<and>
           c_number_of_letters c = int (length (c_normalized c)) \<and>
           c_lex_rank c \<notin> seen_ranks st \<and>
           (\<forall>lw. last_word st = Some lw \<longrightarrow> lw \<le> c_normalized c)"
proof -
  from assms obtain c where c: "read_row py r = Inr c"
    by (auto simp: check_row_def split: sum.splits)
  with assms have st1: "st1 =
      \<lparr> seen_ranks = insert (c_lex_rank c) (seen_ranks st),
        last_word = (if c_normalized c \<noteq> [] then Some (c_normalized c) else last_word st),
        errors = errors st @
          (if c_normalized c = [] then [NormalizedEmpty idx] else []) @
          (if c_normalized c \<noteq> [] \<and> list_ex (\<lambda>ch. ch < 97 \<or> ch > 122) (c_normalized c)
           then [NonAlpha idx (c_normalized c)] else []) @
          (if c_normalized c \<noteq> [] \<and> c_first_letter c \<noteq> take 1 (c_normalized c)
           then [FirstLetterMismatch idx (c_first_letter c) (take 1 (c_normalized c))] else []) @
          (if c_normalized c \<noteq> [] \<and> c_number_of_letters c \<noteq> int (length (c_normalized c))
           then [NumberOfLettersMismatch idx (c_number_of_letters c) (length (c_normalized c))]
           else []) @
          (if c_lex_rank c \<in> seen_ranks st then [DuplicateLexRank idx (c_lex_rank c)] else []) @
          (case last_word st of
             None \<Rightarrow> []
           | Some lw \<Rightarrow>
               if c_normalized c \<noteq> [] \<and> c_normalized c < lw
               then [OrderingViolation idx (c_normalized c) lw] else []) \<rparr>"
    by (simp add: check_row_def Let_def)
  show thesis
  proof (rule that [OF c])
    show "seen_ranks st1 = insert (c_lex_rank c) (seen_ranks st)"
      by (simp add: st1)
    show "last_word st1 = (if c_normalized c \<noteq> [] then Some (c_normalized c) else last_word st)"
      by (simp add: st1)
    show "list_ex is_ordering_violation (errors st1) \<longleftrightarrow>
           list_ex is_ordering_violation (errors st) \<or>
           (c_normalized c \<noteq> [] \<and> (\<exists>lw. last_word st = Some lw \<and> c_normalized c < lw))"
      by (cases "last_word st") (auto simp: st1 is_ordering_violation_def list_ex_iff)
    show "errors st1 = [] \<longleftrightarrow>
           errors st = [] \<and> c_normalized c \<noteq> [] \<and>
           list_all (\<lambda>ch. 97 \<le> ch \<and> ch \<le> 122) (c_normalized c) \<and>
           c_first_letter c = take 1 (c_normalized c) \<and>
           c_number_of_letters c = int (length (c_normalized c)) \<and>
           c_lex_rank c \<notin> seen_ranks st \<and>
           (\<forall>lw. last_word st = Some lw \<longrightarrow> lw \<le> c_normalized c)"
      by (cases "last_word st") (auto simp: st1 list_ex_iff list_all_iff not_le not_less)
  qed
qed

lemma read_row_normalized:
  "read_row py r = Inr c \<Longrightarrow> c_normalized c = get_stripped r ''normalized_word''"
  by (auto simp: read_row_def Let_def split: sum.splits)

lemma check_row_total:
  "read_row py r = Inr c \<Longrightarrow> \<exists>st1. check_row py st idx r = Inr st1"
  by (simp add: check_row_def Let_def)

lemma check_rows_total:
  "read_rows py rows = Inr cs \<Longrightarrow> \<exists>st'. check_rows py st idx rows = Inr st'"
proof (induction rows arbitrary: st idx cs)
  case Nil
  then show ?case by simp
next
  case (Cons r rs)
  from Cons.prems obtain c cs' where c: "read_row py r = Inr c" and cs': "read_rows py rs = Inr cs'"
    by (auto split: sum.splits)
  from check_row_total [OF c] obtain st1 where "check_row py st idx r = Inr st1"
    by blast
  with Cons.IH [OF cs', of st1 "idx + 1"] show ?case by simp
qed

text \<open>
  The loop compares every non-empty key with the last non-empty key before it, so it
  finds a violation exactly when the chain that starts at \<open>last_word\<close> is not sorted.
\<close>

lemma check_rows_ordering:
  "check_rows py st idx rows = Inr st' \<Longrightarrow>
     (list_ex is_ordering_violation (errors st') \<longleftrightarrow>
        list_ex is_ordering_violation (errors st) \<or>
        \<not> sorted ((case last_word st of None \<Rightarrow> [] | Some lw \<Rightarrow> [lw]) @ keys_in_file_order rows))"
proof (induction rows arbitrary: st idx)
  case Nil
  then show ?case by (simp add: keys_in_file_order_def split: option.splits)
next
  case (Cons r rs)
  from Cons.prems obtain st1 where s1: "check_row py st idx r = Inr st1"
    and s2: "check_rows py st1 (idx + 1) rs = Inr st'"
    by (auto split: sum.splits)
  from s1 obtain c where c: "read_row py r = Inr c"
    and lw1: "last_word st1 = (if c_normalized c \<noteq> [] then Some (c_normalized c) else last_word st)"
    and ov1: "list_ex is_ordering_violation (errors st1) \<longleftrightarrow>
           list_ex is_ordering_violation (errors st) \<or>
           (c_normalized c \<noteq> [] \<and> (\<exists>lw. last_word st = Some lw \<and> c_normalized c < lw))"
    by (rule check_row_Inr)
  have k: "get_stripped r ''normalized_word'' = c_normalized c"
    using read_row_normalized [OF c] by simp
  note IH = Cons.IH [OF s2]
  show ?case
  proof (cases "c_normalized c = []")
    case True
    with IH lw1 ov1 k show ?thesis
      by (simp add: keys_in_file_order_def)
  next
    case False
    with IH lw1 ov1 k show ?thesis
      by (cases "last_word st") (auto simp: keys_in_file_order_def not_le)
  qed
qed

text \<open>
  C3 (as the code has it). Whenever the verifier completes its pass, it reports an
  ordering violation exactly when the non-empty (stripped) \<open>normalized_word\<close> values,
  walked in the order of the rows in the file, fail to be non-decreasing in code-point
  order. The \<open>lex_rank\<close> cells play no part in this check.
\<close>

theorem ordering_violation_iff_file_order_unsorted:
  assumes "collect_errors py rows = Inr errs"
  shows "list_ex is_ordering_violation errs \<longleftrightarrow> \<not> sorted (keys_in_file_order rows)"
proof -
  from assms obtain st where run: "check_rows py check_init 1 rows = Inr st"
    and errs: "errs = errors st @
       (if seen_ranks st \<noteq> {1 .. int (length rows)} then [NotContiguous] else [])"
    by (auto simp: collect_errors_def split: sum.splits)
  from errs have "list_ex is_ordering_violation errs \<longleftrightarrow>
      list_ex is_ordering_violation (errors st)"
    by (simp add: is_ordering_violation_def)
  with check_rows_ordering [OF run] show ?thesis
    by (simp add: check_init_def)
qed

lemma read_row_example:
  "48 \<le> n \<Longrightarrow> n \<le> 57 \<Longrightarrow> 48 \<le> k \<Longrightarrow> k \<le> 57 \<Longrightarrow> \<not> is_space a \<Longrightarrow>
   read_row cpython_latin1
      [''normalized_word'' \<mapsto> Some [a], ''first_letter'' \<mapsto> Some [a], ''number_of_letters'' \<mapsto> Some [n],
       ''lex_rank'' \<mapsto> Some [k]] =
     Inr \<lparr> c_normalized = [a], c_first_letter = [a], c_number_of_letters = int (n - 48),
           c_lex_rank = int (k - 48) \<rparr>"
  by (simp add: read_row_def get_stripped_def get_or_falsy_empty_def strip_def int_or_zero_def
      cpython_int_str int_ascii_digit)

text \<open>
  The file with the rows \<open>b\<close> (rank 2), \<open>a\<close> (rank 1), in this order, and the file with
  the rows \<open>a\<close> (rank 2), \<open>b\<close> (rank 1).
\<close>

lemma collect_errors_b2_a1:
  "collect_errors cpython_latin1
     [[''normalized_word'' \<mapsto> Some [98], ''first_letter'' \<mapsto> Some [98], ''number_of_letters'' \<mapsto> Some [49],
       ''lex_rank'' \<mapsto> Some [50]],
      [''normalized_word'' \<mapsto> Some [97], ''first_letter'' \<mapsto> Some [97], ''number_of_letters'' \<mapsto> Some [49],
       ''lex_rank'' \<mapsto> Some [49]]] = Inr [OrderingViolation 2 [97] [98]]"
  by (simp add: collect_errors_def check_row_def check_init_def read_row_example is_space_def
      Let_def numeral_2_eq_2 set_upto [symmetric] upto.simps insert_commute)

lemma collect_errors_a2_b1:
  "collect_errors cpython_latin1
     [[''normalized_word'' \<mapsto> Some [97], ''first_letter'' \<mapsto> Some [97], ''number_of_letters'' \<mapsto> Some [49],
       ''lex_rank'' \<mapsto> Some [50]],
      [''normalized_word'' \<mapsto> Some [98], ''first_letter'' \<mapsto> Some [98], ''number_of_letters'' \<mapsto> Some [49],
       ''lex_rank'' \<mapsto> Some [49]]] = Inr []"
  by (simp add: collect_errors_def check_row_def check_init_def read_row_example is_space_def
      Let_def numeral_2_eq_2 set_upto [symmetric] upto.simps insert_commute)

theorem ordering_violation_iff_file_order_unsorted_witness:
  "collect_errors cpython_latin1
     [[''normalized_word'' \<mapsto> Some [98], ''first_letter'' \<mapsto> Some [98], ''number_of_letters'' \<mapsto> Some [49],
       ''lex_rank'' \<mapsto> Some [50]],
      [''normalized_word'' \<mapsto> Some [97], ''first_letter'' \<mapsto> Some [97], ''number_of_letters'' \<mapsto> Some [49],
       ''lex_rank'' \<mapsto> Some [49]]] = Inr [OrderingViolation 2 [97] [98]] \<and>
   list_ex is_ordering_violation [OrderingViolation 2 [97] [98]] \<and>
   \<not> sorted (keys_in_file_order
     [[''normalized_word'' \<mapsto> Some [98], ''first_letter'' \<mapsto> Some [98], ''number_of_letters'' \<mapsto> Some [49],
       ''lex_rank'' \<mapsto> Some [50]],
      [''normalized_word'' \<mapsto> Some [97], ''first_letter'' \<mapsto> Some [97], ''number_of_letters'' \<mapsto> Some [49],
       ''lex_rank'' \<mapsto> Some [49]]])"
  using ordering_violation_iff_file_order_unsorted [OF collect_errors_b2_a1] collect_errors_b2_a1
  by (simp add: is_ordering_violation_def)

text \<open>
  The rows \<open>b\<close> (rank 2), \<open>a\<close> (rank 1): walked in ascending \<open>lex_rank\<close> order the keys
  are \<open>a\<close>, \<open>b\<close>, which is non-decreasing, yet an ordering violation is reported. The
  rows \<open>a\<close> (rank 2), \<open>b\<close> (rank 1): walked in ascending \<open>lex_rank\<close> order the keys are
  \<open>b\<close>, \<open>a\<close>, which is decreasing, yet nothing is reported and the verifier returns 0.
\<close>

theorem ordering_check_ignores_lex_rank_counterexample:
  "collect_errors cpython_latin1
     [[''normalized_word'' \<mapsto> Some [98], ''first_letter'' \<mapsto> Some [98], ''number_of_letters'' \<mapsto> Some [49],
       ''lex_rank'' \<mapsto> Some [50]],
      [''normalized_word'' \<mapsto> Some [97], ''first_letter'' \<mapsto> Some [97], ''number_of_letters'' \<mapsto> Some [49],
       ''lex_rank'' \<mapsto> Some [49]]] = Inr [OrderingViolation 2 [97] [98]] \<and>
   spec_keys_in_lex_rank_order cpython_latin1
     [[''normalized_word'' \<mapsto> Some [98], ''first_letter'' \<mapsto> Some [98], ''number_of_letters'' \<mapsto> Some [49],
       ''lex_rank'' \<mapsto> Some [50]],
      [''normalized_word'' \<mapsto> Some [97], ''first_letter'' \<mapsto> Some [97], ''number_of_letters'' \<mapsto> Some [49],
       ''lex_rank'' \<mapsto> Some [49]]] = Inr [[97], [98]] \<and>
   sorted [[97], [98 :: nat]] \<and>
   collect_errors cpython_latin1
     [[''normalized_word'' \<mapsto> Some [97], ''first_letter'' \<mapsto> Some [97], ''number_of_letters'' \<mapsto> Some [49],
       ''lex_rank'' \<mapsto> Some [50]],
      [''normalized_word'' \<mapsto> Some [98], ''first_letter'' \<mapsto> Some [98], ''number_of_letters'' \<mapsto> Some [49],
       ''lex_rank'' \<mapsto> Some [49]]] = Inr [] \<and>
   spec_keys_in_lex_rank_order cpython_latin1
     [[''normalized_word'' \<mapsto> Some [97], ''first_letter'' \<mapsto> Some [97], ''number_of_letters'' \<mapsto> Some [49],
       ''lex_rank'' \<mapsto> Some [50]],
      [''normalized_word'' \<mapsto> Some [98], ''first_letter'' \<mapsto> Some [98], ''number_of_letters'' \<mapsto> Some [49],
       ''lex_rank'' \<mapsto> Some [49]]] = Inr [[98], [97]] \<and>
   \<not> sorted [[98], [97 :: nat]] \<and>
   sanity_main cpython_latin1
     [[''normalized_word'' \<mapsto> Some [97], ''first_letter'' \<mapsto> Some [97], ''number_of_letters'' \<mapsto> Some [49],
       ''lex_rank'' \<mapsto> Some [50]],
      [''normalized_word'' \<mapsto> Some [98], ''first_letter'' \<mapsto> Some [98], ''number_of_letters'' \<mapsto> Some [49],
       ''lex_rank'' \<mapsto> Some [49]]] = Inr 0"
  by (simp add: collect_errors_b2_a1 collect_errors_a2_b1 sanity_main_def
      spec_keys_in_lex_rank_order_def read_row_example is_space_def)

lemma read_rows_length: "read_rows py rows = Inr cs \<Longrightarrow> length cs = length rows"
proof (induction rows arbitrary: cs)
  case Nil
  then show ?case by simp
next
  case (Cons r rs)
  then show ?case by (auto split: sum.splits)
qed

text \<open>
  The loop leaves \<open>errors\<close> empty exactly when it was empty before, every row passes its
  own checks, no rank repeats or was seen before, and the keys continue the chain that
  starts at \<open>last_word\<close> without a descent.
\<close>

lemma check_rows_clean:
  "check_rows py st idx rows = Inr st' \<Longrightarrow>
     \<exists>cs. read_rows py rows = Inr cs \<and>
       seen_ranks st' = seen_ranks st \<union> set (map c_lex_rank cs) \<and>
       (errors st' = [] \<longleftrightarrow>
          errors st = [] \<and>
          list_all (\<lambda>c. c_normalized c \<noteq> [] \<and>
                        list_all (\<lambda>ch. 97 \<le> ch \<and> ch \<le> 122) (c_normalized c) \<and>
                        c_first_letter c = take 1 (c_normalized c) \<and>
                        c_number_of_letters c = int (length (c_normalized c))) cs \<and>
          distinct (map c_lex_rank cs) \<and>
          set (map c_lex_rank cs) \<inter> seen_ranks st = {} \<and>
          sorted ((case last_word st of None \<Rightarrow> [] | Some lw \<Rightarrow> [lw]) @ map c_normalized cs))"
proof (induction rows arbitrary: st idx)
  case Nil
  then show ?case by (simp split: option.splits)
next
  case (Cons r rs)
  from Cons.prems obtain st1 where s1: "check_row py st idx r = Inr st1"
    and s2: "check_rows py st1 (idx + 1) rs = Inr st'"
    by (auto split: sum.splits)
  from s1 obtain c where c: "read_row py r = Inr c"
    and seen1: "seen_ranks st1 = insert (c_lex_rank c) (seen_ranks st)"
    and lw1: "last_word st1 = (if c_normalized c \<noteq> [] then Some (c_normalized c) else last_word st)"
    and err1: "errors st1 = [] \<longleftrightarrow>
           errors st = [] \<and> c_normalized c \<noteq> [] \<and>
           list_all (\<lambda>ch. 97 \<le> ch \<and> ch \<le> 122) (c_normalized c) \<and>
           c_first_letter c = take 1 (c_normalized c) \<and>
           c_number_of_letters c = int (length (c_normalized c)) \<and>
           c_lex_rank c \<notin> seen_ranks st \<and>
           (\<forall>lw. last_word st = Some lw \<longrightarrow> lw \<le> c_normalized c)"
    by (rule check_row_Inr)
  from Cons.IH [OF s2] obtain cs where cs: "read_rows py rs = Inr cs"
    and seen': "seen_ranks st' = seen_ranks st1 \<union> set (map c_lex_rank cs)"
    and err': "errors st' = [] \<longleftrightarrow>
          errors st1 = [] \<and>
          list_all (\<lambda>c. c_normalized c \<noteq> [] \<and>
                        list_all (\<lambda>ch. 97 \<le> ch \<and> ch \<le> 122) (c_normalized c) \<and>
                        c_first_letter c = take 1 (c_normalized c) \<and>
                        c_number_of_letters c = int (length (c_normalized c))) cs \<and>
          distinct (map c_lex_rank cs) \<and>
          set (map c_lex_rank cs) \<inter> seen_ranks st1 = {} \<and>
          sorted ((case last_word st1 of None \<Rightarrow> [] | Some lw \<Rightarrow> [lw]) @ map c_normalized cs)"
    by blast
  have rd: "read_rows py (r # rs) = Inr (c # cs)"
    using c cs by simp
  have seen: "seen_ranks st' = seen_ranks st \<union> set (map c_lex_rank (c # cs))"
    using seen' seen1 by auto
  have chain: "c_normalized c \<noteq> [] \<Longrightarrow>
      sorted ((case last_word st of None \<Rightarrow> [] | Some lw \<Rightarrow> [lw]) @ map c_normalized (c # cs)) \<longleftrightarrow>
      (\<forall>lw. last_word st = Some lw \<longrightarrow> lw \<le> c_normalized c) \<and>
      sorted (c_normalized c # map c_normalized cs)"
    by (cases "last_word st") auto
  have "errors st' = [] \<longleftrightarrow>
          errors st = [] \<and>
          list_all (\<lambda>c. c_normalized c \<noteq> [] \<and>
                        list_all (\<lambda>ch. 97 \<le> ch \<and> ch \<le> 122) (c_normalized c) \<and>
                        c_first_letter c = take 1 (c_normalized c) \<and>
                        c_number_of_letters c = int (length (c_normalized c))) (c # cs) \<and>
          distinct (map c_lex_rank (c # cs)) \<and>
          set (map c_lex_rank (c # cs)) \<inter> seen_ranks st = {} \<and>
          sorted ((case last_word st of None \<Rightarrow> [] | Some lw \<Rightarrow> [lw]) @ map c_normalized (c # cs))"
  proof (cases "c_normalized c = []")
    case True
    with err1 err' show ?thesis by simp
  next
    case False
    from False lw1 have lw: "last_word st1 = Some (c_normalized c)" by simp
    show ?thesis
      unfolding err' err1 lw seen1 chain [OF False]
      by (auto simp: list_all_iff)
  qed
  with rd seen show ?case by blast
qed

lemma collect_errors_clean_iff:
  "collect_errors py rows = Inr [] \<longleftrightarrow> (\<exists>cs. read_rows py rows = Inr cs \<and> checks_pass cs)"
proof
  assume "collect_errors py rows = Inr []"
  then obtain st where run: "check_rows py check_init 1 rows = Inr st"
    and e: "errors st = []" and sr: "seen_ranks st = {1 .. int (length rows)}"
    by (auto simp: collect_errors_def split: sum.splits if_splits)
  from check_rows_clean [OF run] obtain cs where cs: "read_rows py rows = Inr cs"
    and seen: "seen_ranks st = set (map c_lex_rank cs)"
    and ok: "list_all (\<lambda>c. c_normalized c \<noteq> [] \<and>
                        list_all (\<lambda>ch. 97 \<le> ch \<and> ch \<le> 122) (c_normalized c) \<and>
                        c_first_letter c = take 1 (c_normalized c) \<and>
                        c_number_of_letters c = int (length (c_normalized c))) cs"
       "distinct (map c_lex_rank cs)" "sorted (map c_normalized cs)"
    using e by (auto simp: check_init_def)
  from seen sr read_rows_length [OF cs] ok have "checks_pass cs"
    by (simp add: checks_pass_def)
  with cs show "\<exists>cs. read_rows py rows = Inr cs \<and> checks_pass cs" by blast
next
  assume "\<exists>cs. read_rows py rows = Inr cs \<and> checks_pass cs"
  then obtain cs where cs: "read_rows py rows = Inr cs" and pass: "checks_pass cs"
    by blast
  from check_rows_total [OF cs] obtain st where run: "check_rows py check_init 1 rows = Inr st"
    by blast
  from check_rows_clean [OF run] cs pass
  have "errors st = []" and "seen_ranks st = {1 .. int (length cs)}"
    by (auto simp: check_init_def checks_pass_def)
  with run read_rows_length [OF cs] show "collect_errors py rows = Inr []"
    by (simp add: collect_errors_def)
qed

text \<open>
  C8. The verifier exits with code 0 exactly when the dataset is non-empty and its pass
  collects no violation, which is exactly when every cell parses and the six checks hold
  of the rows. On an empty dataset it returns 2. On a non-empty dataset with at least
  one violation it returns 1, and a \<open>ValueError\<close> from \<open>int\<close> also ends it with exit
  code 1; so every exit code is 0, 1 or 2, and 2 is kept for the empty dataset.
\<close>

theorem verifier_exit_codes:
  "(exit_code (sanity_main py rows) = 0 \<longleftrightarrow> rows \<noteq> [] \<and> collect_errors py rows = Inr []) \<and>
   (collect_errors py rows = Inr [] \<longleftrightarrow> (\<exists>cs. read_rows py rows = Inr cs \<and> checks_pass cs)) \<and>
   (rows = [] \<longrightarrow> sanity_main py rows = Inr 2) \<and>
   (rows \<noteq> [] \<longrightarrow>
      (\<forall>errs. collect_errors py rows = Inr errs \<and> errs \<noteq> [] \<longrightarrow> sanity_main py rows = Inr 1) \<and>
      (\<forall>e. collect_errors py rows = Inl e \<longrightarrow> exit_code (sanity_main py rows) = 1) \<and>
      exit_code (sanity_main py rows) \<noteq> 2)"
proof (intro conjI impI allI)
  show "exit_code (sanity_main py rows) = 0 \<longleftrightarrow> rows \<noteq> [] \<and> collect_errors py rows = Inr []"
    by (auto simp: exit_code_def sanity_main_def split: sum.splits)
  show "collect_errors py rows = Inr [] \<longleftrightarrow> (\<exists>cs. read_rows py rows = Inr cs \<and> checks_pass cs)"
    by (rule collect_errors_clean_iff)
next
  assume "rows = []"
  then show "sanity_main py rows = Inr 2" by (simp add: sanity_main_def)
next
  fix errs
  assume "rows \<noteq> []" and "collect_errors py rows = Inr errs \<and> errs \<noteq> []"
  then show "sanity_main py rows = Inr 1" by (simp add: sanity_main_def)
next
  fix e
  assume "rows \<noteq> []" and "collect_errors py rows = Inl e"
  then show "exit_code (sanity_main py rows) = 1" by (simp add: sanity_main_def exit_code_def)
next
  assume "rows \<noteq> []"
  then show "exit_code (sanity_main py rows) \<noteq> 2"
    by (auto simp: sanity_main_def exit_code_def split: sum.splits)
qed

text \<open>
  The empty file exits with 2, the file \<open>b\<close> (rank 2), \<open>a\<close> (rank 1) with 1, and the file
  \<open>a\<close> (rank 2), \<open>b\<close> (rank 1) with 0.
\<close>

theorem verifier_exit_codes_witness:
  "exit_code (sanity_main cpython_latin1 []) = 2 \<and>
   exit_code (sanity_main cpython_latin1
     [[''normalized_word'' \<mapsto> Some [98], ''first_letter'' \<mapsto> Some [98], ''number_of_letters'' \<mapsto> Some [49],
       ''lex_rank'' \<mapsto> Some [50]],
      [''normalized_word'' \<mapsto> Some [97], ''first_letter'' \<mapsto> Some [97], ''number_of_letters'' \<mapsto> Some [49],
       ''lex_rank'' \<mapsto> Some [49]]]) = 1 \<and>
   exit_code (sanity_main cpython_latin1
     [[''normalized_word'' \<mapsto> Some [97], ''first_letter'' \<mapsto> Some [97], ''number_of_letters'' \<mapsto> Some [49],
       ''lex_rank'' \<mapsto> Some [50]],
      [''normalized_word'' \<mapsto> Some [98], ''first_letter'' \<mapsto> Some [98], ''number_of_letters'' \<mapsto> Some [49],
       ''lex_rank'' \<mapsto> Some [49]]]) = 0"
proof -
  from verifier_exit_codes [of cpython_latin1 "[]"]
  have "sanity_main cpython_latin1 [] = Inr 2"
    by simp
  then have a: "exit_code (sanity_main cpython_latin1 []) = 2"
    by (simp add: exit_code_def)
  from verifier_exit_codes [of cpython_latin1
     "[[''normalized_word'' \<mapsto> Some [98], ''first_letter'' \<mapsto> Some [98], ''number_of_letters'' \<mapsto> Some [49],
       ''lex_rank'' \<mapsto> Some [50]],
      [''normalized_word'' \<mapsto> Some [97], ''first_letter'' \<mapsto> Some [97], ''number_of_letters'' \<mapsto> Some [49],
       ''lex_rank'' \<mapsto> Some [49]]]"] collect_errors_b2_a1
  have "sanity_main cpython_latin1
     [[''normalized_word'' \<mapsto> Some [98], ''first_letter'' \<mapsto> Some [98], ''number_of_letters'' \<mapsto> Some [49],
       ''lex_rank'' \<mapsto> Some [50]],
      [''normalized_word'' \<mapsto> Some [97], ''first_letter'' \<mapsto> Some [97], ''number_of_letters'' \<mapsto> Some [49],
       ''lex_rank'' \<mapsto> Some [49]]] = Inr 1"
    by blast
  then have b: "exit_code (sanity_main cpython_latin1
     [[''normalized_word'' \<mapsto> Some [98], ''first_letter'' \<mapsto> Some [98], ''number_of_letters'' \<mapsto> Some [49],
       ''lex_rank'' \<mapsto> Some [50]],
      [''normalized_word'' \<mapsto> Some [97], ''first_letter'' \<mapsto> Some [97], ''number_of_letters'' \<mapsto> Some [49],
       ''lex_rank'' \<mapsto> Some [49]]]) = 1"
    by (simp add: exit_code_def)
  from verifier_exit_codes [of cpython_latin1
     "[[''normalized_word'' \<mapsto> Some [97], ''first_letter'' \<mapsto> Some [97], ''number_of_letters'' \<mapsto> Some [49],
       ''lex_rank'' \<mapsto> Some [50]],
      [''normalized_word'' \<mapsto> Some [98], ''first_letter'' \<mapsto> Some [98], ''number_of_letters'' \<mapsto> Some [49],
       ''lex_rank'' \<mapsto> Some [49]]]"] collect_errors_a2_b1
  have c: "exit_code (sanity_main cpython_latin1
     [[''normalized_word'' \<mapsto> Some [97], ''first_letter'' \<mapsto> Some [97], ''number_of_letters'' \<mapsto> Some [49],
       ''lex_rank'' \<mapsto> Some [50]],
      [''normalized_word'' \<mapsto> Some [98], ''first_letter'' \<mapsto> Some [98], ''number_of_letters'' \<mapsto> Some [49],
       ''lex_rank'' \<mapsto> Some [49]]]) = 0"
    by blast
  from a b c show ?thesis by blast
qed

end
